theory Spec2Isabelle
  imports Main "HOL-Library.Sublist"
begin

section \<open>Collaborators of the mutation engine\<close>

text \<open>
  \<^verbatim>\<open>packages/firestore/src/model/mutation.ts\<close> imports its value types from modules that
  are not among the sources. Each of them is modelled here from the contract the
  specification gives for it, read together with what mutation.ts itself documents about
  it.
\<close>

text \<open>Modelled from the spec: \<^verbatim>\<open>DocumentKey\<close> (model/document_key.ts), the opaque, comparable
  identity of a document; \<^verbatim>\<open>isEqual\<close> is equality of the wrapped path.\<close>

datatype DocumentKey = DocumentKey string

text \<open>Modelled from the spec: \<^verbatim>\<open>SnapshotVersion\<close> (core/snapshot_version.ts), a logical
  timestamp; \<^verbatim>\<open>isEqual\<close> is equality. \<^verbatim>\<open>MIN\<close> is version 0. For the sentinel
  \<^verbatim>\<open>forDeletedDoc()\<close> the model follows the class comment of \<^verbatim>\<open>Mutation\<close> in mutation.ts
  (``In the case of Delete mutations, we reset the version to 0'', and the transition table
  with \<^verbatim>\<open>NoDocument(v0)\<close> for every delete, the same \<^verbatim>\<open>v0\<close> a set on a \<^verbatim>\<open>NoDocument\<close> results
  in): it is version 0 as well. The order of versions is not used by mutation.ts and is not
  modelled.\<close>

datatype SnapshotVersion = SnapshotVersion_at nat

definition SnapshotVersion_MIN :: SnapshotVersion where
  "SnapshotVersion_MIN = SnapshotVersion_at 0"

definition SnapshotVersion_forDeletedDoc :: SnapshotVersion where
  "SnapshotVersion_forDeletedDoc = SnapshotVersion_MIN"

text \<open>Modelled from the spec: \<^verbatim>\<open>Timestamp\<close> (api/timestamp.ts), seconds and nanoseconds.\<close>

datatype Timestamp = Timestamp int int

text \<open>Modelled from the spec: \<^verbatim>\<open>FieldPath\<close> (model/path.ts), a dotted field path given by its
  segments, \<^verbatim>\<open>foo.bar\<close> being \<open>[foo, bar]\<close>; \<^verbatim>\<open>isEqual\<close> is equality of the segment lists.\<close>

type_synonym FieldPath = "string list"

text \<open>Modelled from the spec: \<^verbatim>\<open>assert\<close> and \<^verbatim>\<open>fail\<close> (util/assert.ts) abort the operation
  with a fatal internal assertion failure that carries the message.\<close>

datatype error = AssertionFailed string

definition fail :: "string \<Rightarrow> error + 'a" where
  "fail failure = Inl (AssertionFailed failure)"

definition assert :: "bool \<Rightarrow> string \<Rightarrow> error + unit" where
  "assert assertion message = (if assertion then Inr () else fail message)"

text \<open>Sequencing of two steps of which the first may abort.\<close>

fun andThen :: "error + 'a \<Rightarrow> ('a \<Rightarrow> error + 'b) \<Rightarrow> error + 'b" where
  "andThen (Inl e) f = Inl e"
| "andThen (Inr x) f = f x"

text \<open>Modelled from the spec: \<^verbatim>\<open>FieldValue\<close> (model/field_value.ts). An object value is itself
  a field value and maps field names to field values, so that values nest. The server
  timestamp placeholder carries the local write time and the previous value of the field
  (or null); integers and strings stand for the other values a client supplies.\<close>

datatype FieldValue =
    IntegerValue int
  | StringValue string
  | ServerTimestampValue Timestamp "FieldValue option"
  | ObjectValue "string \<Rightarrow> FieldValue option"

text \<open>Modelled from the spec: \<^verbatim>\<open>ObjectValue\<close> (model/field_value.ts), the immutable field
  container keyed by dotted field paths, with \<^verbatim>\<open>field(path)\<close> (a value or absent),
  \<^verbatim>\<open>set(path, value)\<close>, \<^verbatim>\<open>delete(path)\<close> and the constant \<^verbatim>\<open>EMPTY\<close>; \<^verbatim>\<open>isEqual\<close> is equality
  of the contents. A path is followed segment by segment through nested objects, as the
  comment on \<^verbatim>\<open>FieldMask\<close> in mutation.ts describes it: \<^verbatim>\<open>foo\<close> overwrites \<^verbatim>\<open>foo\<close> entirely,
  \<^verbatim>\<open>foo.bar\<close> overwrites only the field \<^verbatim>\<open>bar\<close> of the object \<^verbatim>\<open>foo\<close>, and a \<^verbatim>\<open>foo\<close> that is not
  an object is replaced by an object. A delete below a value that is not an object changes
  nothing. Each of the three operations asserts that its path is not empty. The type is
  the map from field names to values that an object value wraps.\<close>

type_synonym ObjectValue = "string \<rightharpoonup> FieldValue"

definition ObjectValue_EMPTY :: ObjectValue where
  "ObjectValue_EMPTY = Map.empty"

text \<open>\<^verbatim>\<open>instanceof ObjectValue\<close> on a value that may be undefined, and the map of an object
  value, with \<^verbatim>\<open>EMPTY\<close> standing in for anything else.\<close>

fun isObject :: "FieldValue option \<Rightarrow> bool" where
  "isObject (Some (ObjectValue internalValue)) = True"
| "isObject fld = False"

fun asObject :: "FieldValue option \<Rightarrow> ObjectValue" where
  "asObject (Some (ObjectValue internalValue)) = internalValue"
| "asObject fld = ObjectValue_EMPTY"

text \<open>One step of \<^verbatim>\<open>field\<close>: the named child of an object, undefined for anything else.\<close>

fun child :: "FieldValue option \<Rightarrow> string \<Rightarrow> FieldValue option" where
  "child (Some (ObjectValue internalValue)) childName = internalValue childName"
| "child fld childName = None"

fun field_forEach :: "FieldValue option \<Rightarrow> FieldPath \<Rightarrow> FieldValue option" where
  "field_forEach fld [] = fld"
| "field_forEach fld (pathSegment # rest) = field_forEach (child fld pathSegment) rest"

definition ObjectValue_field :: "ObjectValue \<Rightarrow> FieldPath \<Rightarrow> error + FieldValue option" where
  "ObjectValue_field this path =
     andThen (assert (path \<noteq> []) ''Cannot get field of empty path'')
       (\<lambda>_. Inr (field_forEach (Some (ObjectValue this)) path))"

text \<open>\<^verbatim>\<open>set\<close> and \<^verbatim>\<open>delete\<close> on a path that is not empty.\<close>

fun setPath :: "ObjectValue \<Rightarrow> FieldPath \<Rightarrow> FieldValue \<Rightarrow> ObjectValue" where
  "setPath this [] to = this"
| "setPath this [segment] to = this(segment \<mapsto> to)"
| "setPath this (segment # rest) to =
     this(segment \<mapsto> ObjectValue (setPath (asObject (this segment)) rest to))"

fun deletePath :: "ObjectValue \<Rightarrow> FieldPath \<Rightarrow> ObjectValue" where
  "deletePath this [] = this"
| "deletePath this [segment] = this(segment := None)"
| "deletePath this (segment # rest) =
     (if isObject (this segment)
      then this(segment \<mapsto> ObjectValue (deletePath (asObject (this segment)) rest))
      else this)"

definition ObjectValue_set :: "ObjectValue \<Rightarrow> FieldPath \<Rightarrow> FieldValue \<Rightarrow> error + ObjectValue" where
  "ObjectValue_set this path to =
     andThen (assert (path \<noteq> []) ''Cannot set field for empty path on ObjectValue'')
       (\<lambda>_. Inr (setPath this path to))"

definition ObjectValue_delete :: "ObjectValue \<Rightarrow> FieldPath \<Rightarrow> error + ObjectValue" where
  "ObjectValue_delete this path =
     andThen (assert (path \<noteq> []) ''Cannot delete field for empty path on ObjectValue'')
       (\<lambda>_. Inr (deletePath this path))"

text \<open>Modelled from the spec: \<^verbatim>\<open>MaybeDocument\<close> (model/document.ts), the union of
  \<^verbatim>\<open>Document(key, version, data, hasLocalMutations)\<close> and \<^verbatim>\<open>NoDocument(key, version)\<close>.
  A value of type \<^verbatim>\<open>MaybeDocument | null\<close> is an optional \<^verbatim>\<open>MaybeDocument\<close>.\<close>

datatype MaybeDocument =
    Document DocumentKey SnapshotVersion ObjectValue bool
  | NoDocument DocumentKey SnapshotVersion

fun MaybeDocument_key :: "MaybeDocument \<Rightarrow> DocumentKey" where
  "MaybeDocument_key (Document k v d h) = k"
| "MaybeDocument_key (NoDocument k v) = k"

fun MaybeDocument_version :: "MaybeDocument \<Rightarrow> SnapshotVersion" where
  "MaybeDocument_version (Document k v d h) = v"
| "MaybeDocument_version (NoDocument k v) = v"

text \<open>Modelled from the spec: \<^verbatim>\<open>misc.equals\<close> and \<^verbatim>\<open>misc.arrayEquals\<close> (util/misc.ts):
  equality of two optional values, and order-sensitive equality of two sequences, both by
  the \<^verbatim>\<open>isEqual\<close> of the elements.\<close>

fun misc_equals :: "('a \<Rightarrow> 'a \<Rightarrow> bool) \<Rightarrow> 'a option \<Rightarrow> 'a option \<Rightarrow> bool" where
  "misc_equals isEq (Some l) (Some r) = isEq l r"
| "misc_equals isEq (Some l) None = False"
| "misc_equals isEq None (Some r) = False"
| "misc_equals isEq None None = True"

fun misc_arrayEquals :: "('a \<Rightarrow> 'a \<Rightarrow> bool) \<Rightarrow> 'a list \<Rightarrow> 'a list \<Rightarrow> bool" where
  "misc_arrayEquals isEq [] [] = True"
| "misc_arrayEquals isEq (l # ls) (r # rs) = (isEq l r \<and> misc_arrayEquals isEq ls rs)"
| "misc_arrayEquals isEq ls rs = False"

section \<open>Field masks, transforms and mutation results\<close>

datatype FieldMask = FieldMask (fields: "FieldPath list")

definition FieldMask_isEqual :: "FieldMask \<Rightarrow> FieldMask \<Rightarrow> bool" where
  "FieldMask_isEqual this other = misc_arrayEquals (=) (FieldMask.fields this) (FieldMask.fields other)"

text \<open>\<^verbatim>\<open>TransformOperation\<close> is an interface with the one implementing class
  \<^verbatim>\<open>ServerTimestampTransform\<close>; \<open>OtherTransform\<close> stands for any other implementation,
  which the \<^verbatim>\<open>instanceof\<close> tests of the mutation code reject.\<close>

datatype TransformOperation = ServerTimestampTransform | OtherTransform string

datatype FieldTransform =
  FieldTransform (field: FieldPath) (transform: TransformOperation)

record MutationResult =
  version :: "SnapshotVersion option"
  transformResults :: "FieldValue list option"

section \<open>Preconditions\<close>

record Precondition =
  updateTime :: "SnapshotVersion option"
  exists :: "bool option"

definition Precondition_new ::
  "SnapshotVersion option \<Rightarrow> bool option \<Rightarrow> error + Precondition" where
  \<open>Precondition_new ut ex =
     andThen (assert (ut = None \<or> ex = None)
                ''Precondition can specify "exists" or "updateTime" but not both'')
       (\<lambda>_. Inr \<lparr>updateTime = ut, exists = ex\<rparr>)\<close>

definition Precondition_NONE :: Precondition where
  "Precondition_NONE = \<lparr>updateTime = None, exists = None\<rparr>"

definition Precondition_exists :: "bool \<Rightarrow> Precondition" where
  "Precondition_exists ex = \<lparr>updateTime = None, exists = Some ex\<rparr>"

definition Precondition_updateTime :: "SnapshotVersion \<Rightarrow> Precondition" where
  "Precondition_updateTime v = \<lparr>updateTime = Some v, exists = None\<rparr>"

definition isNone :: "Precondition \<Rightarrow> bool" where
  "isNone this = (updateTime this = None \<and> exists this = None)"

fun isDocument :: "MaybeDocument option \<Rightarrow> bool" where
  "isDocument (Some (Document k v d h)) = True"
| "isDocument maybeDoc = False"

fun isNoDocument :: "MaybeDocument option \<Rightarrow> bool" where
  "isNoDocument (Some (NoDocument k v)) = True"
| "isNoDocument maybeDoc = False"

definition isValidFor :: "Precondition \<Rightarrow> MaybeDocument option \<Rightarrow> error + bool" where
  "isValidFor this maybeDoc =
     (case updateTime this of
        Some ut \<Rightarrow>
          Inr (case maybeDoc of
                 Some (Document k v d h) \<Rightarrow> v = ut
               | _ \<Rightarrow> False)
      | None \<Rightarrow>
          (case exists this of
             Some ex \<Rightarrow>
               (if ex then Inr (isDocument maybeDoc)
                else Inr (maybeDoc = None \<or> isNoDocument maybeDoc))
           | None \<Rightarrow>
               andThen (assert (isNone this) ''Precondition should be empty'')
                 (\<lambda>_. Inr True)))"

definition Precondition_isEqual :: "Precondition \<Rightarrow> Precondition \<Rightarrow> bool" where
  "Precondition_isEqual this other =
     (misc_equals (=) (updateTime this) (updateTime other) \<and> exists this = exists other)"

section \<open>Mutations\<close>

text \<open>The abstract class \<^verbatim>\<open>Mutation\<close> and its four subclasses, as a tagged union. A
  \<^verbatim>\<open>TransformMutation\<close> is constructed from a key and its field transforms only.\<close>

datatype Mutation =
    SetMutation DocumentKey ObjectValue Precondition
  | PatchMutation DocumentKey ObjectValue FieldMask Precondition
  | TransformMutation DocumentKey "FieldTransform list"
  | DeleteMutation DocumentKey Precondition

fun Mutation_key :: "Mutation \<Rightarrow> DocumentKey" where
  "Mutation_key (SetMutation key val precondition) = key"
| "Mutation_key (PatchMutation key dat fieldMask precondition) = key"
| "Mutation_key (TransformMutation key fieldTransforms) = key"
| "Mutation_key (DeleteMutation key precondition) = key"

text \<open>The field \<^verbatim>\<open>precondition\<close>: a constructor argument of three subclasses, and the
  initialiser \<^verbatim>\<open>Precondition.exists(true)\<close> in \<^verbatim>\<open>TransformMutation\<close>.\<close>

fun Mutation_precondition :: "Mutation \<Rightarrow> Precondition" where
  "Mutation_precondition (SetMutation key val precondition) = precondition"
| "Mutation_precondition (PatchMutation key dat fieldMask precondition) = precondition"
| "Mutation_precondition (TransformMutation key fieldTransforms) = Precondition_exists True"
| "Mutation_precondition (DeleteMutation key precondition) = precondition"

fun verifyKeyMatches :: "DocumentKey \<Rightarrow> MaybeDocument option \<Rightarrow> error + unit" where
  "verifyKeyMatches key None = Inr ()"
| "verifyKeyMatches key (Some maybeDoc) =
     assert (MaybeDocument_key maybeDoc = key)
       ''Can only apply a mutation to a document with the same key''"

fun getPostMutationVersion :: "MaybeDocument option \<Rightarrow> SnapshotVersion" where
  "getPostMutationVersion (Some (Document k v d h)) = v"
| "getPostMutationVersion maybeDoc = SnapshotVersion_MIN"

subsection \<open>SetMutation\<close>

definition SetMutation_applyToRemoteDocument ::
  "DocumentKey \<Rightarrow> ObjectValue \<Rightarrow> Precondition \<Rightarrow> MaybeDocument option \<Rightarrow> MutationResult
     \<Rightarrow> error + MaybeDocument option" where
  "SetMutation_applyToRemoteDocument key val precondition maybeDoc mutationResult =
     andThen (verifyKeyMatches key maybeDoc) (\<lambda>_.
     andThen (assert (transformResults mutationResult = None)
                ''Transform results received by SetMutation.'') (\<lambda>_.
     Inr (Some (Document key (getPostMutationVersion maybeDoc) val False))))"

definition SetMutation_applyToLocalView ::
  "DocumentKey \<Rightarrow> ObjectValue \<Rightarrow> Precondition \<Rightarrow> MaybeDocument option
     \<Rightarrow> MaybeDocument option \<Rightarrow> Timestamp \<Rightarrow> error + MaybeDocument option" where
  "SetMutation_applyToLocalView key val precondition maybeDoc baseDoc localWriteTime =
     andThen (verifyKeyMatches key maybeDoc) (\<lambda>_.
     andThen (isValidFor precondition maybeDoc) (\<lambda>valid.
     if \<not> valid then Inr maybeDoc
     else Inr (Some (Document key (getPostMutationVersion maybeDoc) val True))))"

subsection \<open>PatchMutation\<close>

text \<open>The loop of \<^verbatim>\<open>patchObject\<close> over \<^verbatim>\<open>this.fieldMask.fields\<close>, the object being
  patched threaded through; an assertion that fails in \<^verbatim>\<open>field\<close>, \<^verbatim>\<open>set\<close> or \<^verbatim>\<open>delete\<close> ends
  it.\<close>

fun patchObject ::
  "ObjectValue \<Rightarrow> FieldPath list \<Rightarrow> ObjectValue \<Rightarrow> error + ObjectValue" where
  "patchObject this_data [] dat = Inr dat"
| "patchObject this_data (fieldPath # rest) dat =
     (case ObjectValue_field this_data fieldPath of
        Inl e \<Rightarrow> Inl e
      | Inr (Some newValue) \<Rightarrow>
          (case ObjectValue_set dat fieldPath newValue of
             Inl e \<Rightarrow> Inl e
           | Inr dat' \<Rightarrow> patchObject this_data rest dat')
      | Inr None \<Rightarrow>
          (case ObjectValue_delete dat fieldPath of
             Inl e \<Rightarrow> Inl e
           | Inr dat' \<Rightarrow> patchObject this_data rest dat'))"

definition patchDocument ::
  "ObjectValue \<Rightarrow> FieldMask \<Rightarrow> MaybeDocument option \<Rightarrow> error + ObjectValue" where
  "patchDocument this_data fieldMask maybeDoc =
     patchObject this_data (FieldMask.fields fieldMask)
       (case maybeDoc of
          Some (Document k v d h) \<Rightarrow> d
        | _ \<Rightarrow> ObjectValue_EMPTY)"

definition PatchMutation_applyToRemoteDocument ::
  "DocumentKey \<Rightarrow> ObjectValue \<Rightarrow> FieldMask \<Rightarrow> Precondition \<Rightarrow> MaybeDocument option
     \<Rightarrow> MutationResult \<Rightarrow> error + MaybeDocument option" where
  "PatchMutation_applyToRemoteDocument key this_data fieldMask precondition maybeDoc
       mutationResult =
     andThen (verifyKeyMatches key maybeDoc) (\<lambda>_.
     andThen (assert (transformResults mutationResult = None)
                ''Transform results received by PatchMutation.'') (\<lambda>_.
     andThen (isValidFor precondition maybeDoc) (\<lambda>valid.
     if \<not> valid then Inr maybeDoc
     else
       andThen (patchDocument this_data fieldMask maybeDoc) (\<lambda>newData.
       Inr (Some (Document key (getPostMutationVersion maybeDoc) newData False))))))"

definition PatchMutation_applyToLocalView ::
  "DocumentKey \<Rightarrow> ObjectValue \<Rightarrow> FieldMask \<Rightarrow> Precondition \<Rightarrow> MaybeDocument option
     \<Rightarrow> MaybeDocument option \<Rightarrow> Timestamp \<Rightarrow> error + MaybeDocument option" where
  "PatchMutation_applyToLocalView key this_data fieldMask precondition maybeDoc baseDoc
       localWriteTime =
     andThen (verifyKeyMatches key maybeDoc) (\<lambda>_.
     andThen (isValidFor precondition maybeDoc) (\<lambda>valid.
     if \<not> valid then Inr maybeDoc
     else
       andThen (patchDocument this_data fieldMask maybeDoc) (\<lambda>newData.
       Inr (Some (Document key (getPostMutationVersion maybeDoc) newData True)))))"

subsection \<open>TransformMutation\<close>

text \<open>\<^verbatim>\<open>requireDocument\<close> returns the document it was given, here as the tuple of its
  fields.\<close>

fun requireDocument ::
  "DocumentKey \<Rightarrow> MaybeDocument option
     \<Rightarrow> error + (DocumentKey \<times> SnapshotVersion \<times> ObjectValue \<times> bool)" where
  "requireDocument key (Some (Document k v d h)) =
     andThen (assert (k = key) ''Can only transform a document with the same key'')
       (\<lambda>_. Inr (k, v, d, h))"
| "requireDocument key maybeDoc = fail ''Unknown MaybeDocument type ''"

text \<open>\<^verbatim>\<open>baseDoc.field(path) || null\<close> when \<^verbatim>\<open>baseDoc\<close> is a \<^verbatim>\<open>Document\<close>, whose \<^verbatim>\<open>field\<close> is
  that of its data; null otherwise.\<close>

fun previousValue ::
  "MaybeDocument option \<Rightarrow> FieldPath \<Rightarrow> error + FieldValue option" where
  "previousValue (Some (Document k v d h)) path = ObjectValue_field d path"
| "previousValue baseDoc path = Inr None"

fun localTransformResults ::
  "FieldTransform list \<Rightarrow> Timestamp \<Rightarrow> MaybeDocument option \<Rightarrow> error + FieldValue list" where
  "localTransformResults [] localWriteTime baseDoc = Inr []"
| "localTransformResults (fieldTransform # rest) localWriteTime baseDoc =
     (case transform fieldTransform of
        ServerTimestampTransform \<Rightarrow>
          (case previousValue baseDoc (field fieldTransform) of
             Inl e \<Rightarrow> Inl e
           | Inr previous \<Rightarrow>
               (case localTransformResults rest localWriteTime baseDoc of
                  Inl e \<Rightarrow> Inl e
                | Inr results \<Rightarrow>
                    Inr (ServerTimestampValue localWriteTime previous # results)))
      | OtherTransform c \<Rightarrow> fail ''Encountered unknown transform: '')"

text \<open>The loop of \<^verbatim>\<open>transformObject\<close>, entered once the two arrays are known to have the
  same length: the \<open>i\<close>-th transform is paired with the \<open>i\<close>-th result.\<close>

fun transformObject_loop ::
  "(FieldTransform \<times> FieldValue) list \<Rightarrow> ObjectValue \<Rightarrow> error + ObjectValue" where
  "transformObject_loop [] dat = Inr dat"
| "transformObject_loop ((fieldTransform, transformResult) # rest) dat =
     (case transform fieldTransform of
        ServerTimestampTransform \<Rightarrow>
          (case ObjectValue_set dat (field fieldTransform) transformResult of
             Inl e \<Rightarrow> Inl e
           | Inr dat' \<Rightarrow> transformObject_loop rest dat')
      | OtherTransform c \<Rightarrow> fail ''Encountered unknown transform: '')"

definition transformObject ::
  "FieldTransform list \<Rightarrow> ObjectValue \<Rightarrow> FieldValue list \<Rightarrow> error + ObjectValue" where
  "transformObject fieldTransforms dat results =
     andThen (assert (length results = length fieldTransforms)
                ''TransformResults length mismatch.'') (\<lambda>_.
     transformObject_loop (zip fieldTransforms results) dat)"

text \<open>The assertion that the transform results are not null, and the non-null reading
  \<^verbatim>\<open>mutationResult.transformResults!\<close> that follows it, are the match on the option.\<close>

definition TransformMutation_applyToRemoteDocument ::
  "DocumentKey \<Rightarrow> FieldTransform list \<Rightarrow> MaybeDocument option \<Rightarrow> MutationResult
     \<Rightarrow> error + MaybeDocument option" where
  "TransformMutation_applyToRemoteDocument key fieldTransforms maybeDoc mutationResult =
     andThen (verifyKeyMatches key maybeDoc) (\<lambda>_.
     case transformResults mutationResult of
       None \<Rightarrow> fail ''Transform results missing for TransformMutation.''
     | Some results \<Rightarrow>
         andThen (isValidFor (Precondition_exists True) maybeDoc) (\<lambda>valid.
         if \<not> valid then Inr maybeDoc
         else
           andThen (requireDocument key maybeDoc) (\<lambda>(k, v, d, h).
           andThen (transformObject fieldTransforms d results) (\<lambda>newData.
           Inr (Some (Document key v newData False))))))"

definition TransformMutation_applyToLocalView ::
  "DocumentKey \<Rightarrow> FieldTransform list \<Rightarrow> MaybeDocument option \<Rightarrow> MaybeDocument option
     \<Rightarrow> Timestamp \<Rightarrow> error + MaybeDocument option" where
  "TransformMutation_applyToLocalView key fieldTransforms maybeDoc baseDoc localWriteTime =
     andThen (verifyKeyMatches key maybeDoc) (\<lambda>_.
     andThen (isValidFor (Precondition_exists True) maybeDoc) (\<lambda>valid.
     if \<not> valid then Inr maybeDoc
     else
       andThen (requireDocument key maybeDoc) (\<lambda>(k, v, d, h).
       andThen (localTransformResults fieldTransforms localWriteTime baseDoc) (\<lambda>results.
       andThen (transformObject fieldTransforms d results) (\<lambda>newData.
       Inr (Some (Document key v newData True)))))))"

subsection \<open>DeleteMutation\<close>

definition DeleteMutation_applyToRemoteDocument ::
  "DocumentKey \<Rightarrow> Precondition \<Rightarrow> MaybeDocument option \<Rightarrow> MutationResult
     \<Rightarrow> error + MaybeDocument option" where
  "DeleteMutation_applyToRemoteDocument key precondition maybeDoc mutationResult =
     andThen (verifyKeyMatches key maybeDoc) (\<lambda>_.
     andThen (assert (transformResults mutationResult = None)
                ''Transform results received by DeleteMutation.'') (\<lambda>_.
     Inr (Some (NoDocument key SnapshotVersion_MIN))))"

definition DeleteMutation_applyToLocalView ::
  "DocumentKey \<Rightarrow> Precondition \<Rightarrow> MaybeDocument option \<Rightarrow> MaybeDocument option
     \<Rightarrow> Timestamp \<Rightarrow> error + MaybeDocument option" where
  "DeleteMutation_applyToLocalView key precondition maybeDoc baseDoc localWriteTime =
     andThen (verifyKeyMatches key maybeDoc) (\<lambda>_.
     andThen (isValidFor precondition maybeDoc) (\<lambda>valid.
     if \<not> valid then Inr maybeDoc
     else
       andThen (case maybeDoc of
                  Some d \<Rightarrow> assert (MaybeDocument_key d = key)
                              ''Can only apply mutation to document with same key''
                | None \<Rightarrow> Inr ()) (\<lambda>_.
       Inr (Some (NoDocument key SnapshotVersion_forDeletedDoc)))))"

subsection \<open>Dispatch on the class of the mutation\<close>

fun applyToRemoteDocument ::
  "Mutation \<Rightarrow> MaybeDocument option \<Rightarrow> MutationResult \<Rightarrow> error + MaybeDocument option" where
  "applyToRemoteDocument (SetMutation key val precondition) maybeDoc mutationResult =
     SetMutation_applyToRemoteDocument key val precondition maybeDoc mutationResult"
| "applyToRemoteDocument (PatchMutation key dat fieldMask precondition) maybeDoc
       mutationResult =
     PatchMutation_applyToRemoteDocument key dat fieldMask precondition maybeDoc
       mutationResult"
| "applyToRemoteDocument (TransformMutation key fieldTransforms) maybeDoc mutationResult =
     TransformMutation_applyToRemoteDocument key fieldTransforms maybeDoc mutationResult"
| "applyToRemoteDocument (DeleteMutation key precondition) maybeDoc mutationResult =
     DeleteMutation_applyToRemoteDocument key precondition maybeDoc mutationResult"

fun applyToLocalView ::
  "Mutation \<Rightarrow> MaybeDocument option \<Rightarrow> MaybeDocument option \<Rightarrow> Timestamp
     \<Rightarrow> error + MaybeDocument option" where
  "applyToLocalView (SetMutation key val precondition) maybeDoc baseDoc localWriteTime =
     SetMutation_applyToLocalView key val precondition maybeDoc baseDoc localWriteTime"
| "applyToLocalView (PatchMutation key dat fieldMask precondition) maybeDoc baseDoc
       localWriteTime =
     PatchMutation_applyToLocalView key dat fieldMask precondition maybeDoc baseDoc
       localWriteTime"
| "applyToLocalView (TransformMutation key fieldTransforms) maybeDoc baseDoc localWriteTime =
     TransformMutation_applyToLocalView key fieldTransforms maybeDoc baseDoc localWriteTime"
| "applyToLocalView (DeleteMutation key precondition) maybeDoc baseDoc localWriteTime =
     DeleteMutation_applyToLocalView key precondition maybeDoc baseDoc localWriteTime"

text \<open>\<^verbatim>\<open>isEqual\<close> of the subclasses whose source compares constructor arguments only; the
  \<^verbatim>\<open>instanceof\<close> test is the match on the constructor.\<close>

fun SetMutation_isEqual :: "Mutation \<Rightarrow> Mutation \<Rightarrow> bool" where
  "SetMutation_isEqual (SetMutation key val precondition) (SetMutation key' val' precondition') =
     (key = key' \<and> val = val' \<and> Precondition_isEqual precondition precondition')"
| "SetMutation_isEqual this other = False"

fun PatchMutation_isEqual :: "Mutation \<Rightarrow> Mutation \<Rightarrow> bool" where
  "PatchMutation_isEqual (PatchMutation key dat fieldMask precondition)
       (PatchMutation key' dat' fieldMask' precondition') =
     (key = key' \<and> FieldMask_isEqual fieldMask fieldMask'
        \<and> Precondition_isEqual precondition precondition')"
| "PatchMutation_isEqual this other = False"

fun DeleteMutation_isEqual :: "Mutation \<Rightarrow> Mutation \<Rightarrow> bool" where
  "DeleteMutation_isEqual (DeleteMutation key precondition) (DeleteMutation key' precondition') =
     (key = key' \<and> Precondition_isEqual precondition precondition')"
| "DeleteMutation_isEqual this other = False"

section \<open>Notions used to state and to prove the properties\<close>

text \<open>The call contract of both apply methods: a document that is not absent carries the
  key of the mutation.\<close>

definition hasKey :: "DocumentKey \<Rightarrow> MaybeDocument option \<Rightarrow> bool" where
  "hasKey key maybeDoc = (case maybeDoc of None \<Rightarrow> True | Some d \<Rightarrow> MaybeDocument_key d = key)"

text \<open>The object a patch starts from: the data of an existing document, else the empty
  object.\<close>

definition baseData :: "MaybeDocument option \<Rightarrow> ObjectValue" where
  "baseData maybeDoc = (case maybeDoc of Some (Document k v d h) \<Rightarrow> d | _ \<Rightarrow> ObjectValue_EMPTY)"

text \<open>The patch algorithm as the specification words it: starting from the base object,
  for each field path of the mask in mask order, set the path to the candidate value when
  there is one and delete the path otherwise.\<close>

definition patchReference ::
  "ObjectValue \<Rightarrow> FieldPath list \<Rightarrow> MaybeDocument option \<Rightarrow> error + ObjectValue" where
  "patchReference D M maybeDoc =
     fold (\<lambda>p acc. andThen acc (\<lambda>obj.
             andThen (ObjectValue_field D p) (\<lambda>newValue.
               case newValue of
                 Some v \<Rightarrow> ObjectValue_set obj p v
               | None \<Rightarrow> ObjectValue_delete obj p)))
       M (Inr (baseData maybeDoc))"

text \<open>Two field paths of which neither is a prefix of the other.\<close>

definition unrelated :: "FieldPath \<Rightarrow> FieldPath \<Rightarrow> bool" where
  "unrelated p q = (\<not> prefix p q \<and> \<not> prefix q p)"

text \<open>\<^verbatim>\<open>field\<close> without its assertion, one step of the patch loop on a path that is not
  empty, and the loops of \<^verbatim>\<open>patchObject\<close> and \<^verbatim>\<open>transformObject\<close> when no assertion
  fails.\<close>

definition fieldP :: "ObjectValue \<Rightarrow> FieldPath \<Rightarrow> FieldValue option" where
  "fieldP this path = field_forEach (Some (ObjectValue this)) path"

definition assignPath :: "ObjectValue \<Rightarrow> FieldPath \<Rightarrow> ObjectValue \<Rightarrow> ObjectValue" where
  "assignPath D p x = (case fieldP D p of Some v \<Rightarrow> setPath x p v | None \<Rightarrow> deletePath x p)"

fun patchAll :: "ObjectValue \<Rightarrow> FieldPath list \<Rightarrow> ObjectValue \<Rightarrow> ObjectValue" where
  "patchAll D [] x = x"
| "patchAll D (p # ps) x = patchAll D ps (assignPath D p x)"

fun setAll :: "(FieldPath \<times> FieldValue) list \<Rightarrow> ObjectValue \<Rightarrow> ObjectValue" where
  "setAll [] x = x"
| "setAll ((p, v) # zs) x = setAll zs (setPath x p v)"

definition assignments :: "(FieldTransform \<times> FieldValue) list \<Rightarrow> (FieldPath \<times> FieldValue) list" where
  "assignments zs = map (\<lambda>(ft, r). (field ft, r)) zs"

section \<open>Auxiliary facts\<close>

subsection \<open>Preconditions and keys\<close>

lemma isValidFor_total: "\<exists>b. isValidFor p maybeDoc = Inr b"
  by (auto simp: isValidFor_def isNone_def assert_def split: option.splits)

lemma verifyKeyMatches_hasKey:
  "verifyKeyMatches key maybeDoc =
     (if hasKey key maybeDoc then Inr ()
      else Inl (AssertionFailed ''Can only apply a mutation to a document with the same key''))"
  by (cases maybeDoc) (auto simp: hasKey_def assert_def fail_def)

subsection \<open>Paths through nested objects\<close>

lemma setPath_Cons:
  "rest \<noteq> [] \<Longrightarrow> setPath x (s # rest) v
     = x(s \<mapsto> ObjectValue (setPath (asObject (x s)) rest v))"
  by (cases rest) simp_all

lemma deletePath_Cons:
  "rest \<noteq> [] \<Longrightarrow> deletePath x (s # rest)
     = (if isObject (x s)
        then x(s \<mapsto> ObjectValue (deletePath (asObject (x s)) rest))
        else x)"
  by (cases rest) simp_all

lemma not_isObject_child: "\<not> isObject f \<Longrightarrow> child f s = None"
  by (cases "(f, s)" rule: child.cases) simp_all

lemma isObject_child: "isObject f \<Longrightarrow> child f s = asObject f s"
  by (cases "(f, s)" rule: child.cases) simp_all

lemma isObject_eq: "isObject f \<Longrightarrow> f = Some (ObjectValue (asObject f))"
  by (cases f rule: isObject.cases) simp_all

lemma field_forEach_None: "field_forEach None r = None"
  by (induction r) simp_all

lemma field_forEach_append:
  "field_forEach f (p @ r) = field_forEach (field_forEach f p) r"
  by (induction p arbitrary: f) simp_all

lemma fieldP_append: "fieldP x (p @ r) = field_forEach (fieldP x p) r"
  by (simp add: fieldP_def field_forEach_append)

lemma fieldP_Cons: "fieldP x (s # r) = field_forEach (x s) r"
  by (simp add: fieldP_def)

lemma field_forEach_asObject:
  "field_forEach f (s # r) = fieldP (asObject f) (s # r)"
  by (cases "(f, s)" rule: child.cases)
     (simp_all add: fieldP_def ObjectValue_EMPTY_def field_forEach_None)

lemma fieldP_setPath_same: "p \<noteq> [] \<Longrightarrow> fieldP (setPath x p v) p = Some v"
proof (induction p arbitrary: x)
  case Nil
  then show ?case by simp
next
  case (Cons s r)
  show ?case
  proof (cases "r = []")
    case True
    then show ?thesis by (simp add: fieldP_Cons)
  next
    case False
    then obtain t r' where r: "r = t # r'" by (cases r) auto
    have "fieldP (setPath x (s # r) v) (s # r)
        = field_forEach (Some (ObjectValue (setPath (asObject (x s)) r v))) r"
      using False by (simp add: setPath_Cons fieldP_Cons)
    also have "\<dots> = fieldP (setPath (asObject (x s)) r v) r"
      by (simp add: fieldP_def)
    also have "\<dots> = Some v"
      using False by (rule Cons.IH)
    finally show ?thesis .
  qed
qed

lemma fieldP_deletePath_same: "p \<noteq> [] \<Longrightarrow> fieldP (deletePath x p) p = None"
proof (induction p arbitrary: x)
  case Nil
  then show ?case by simp
next
  case (Cons s r)
  show ?case
  proof (cases "r = []")
    case True
    then show ?thesis by (simp add: fieldP_Cons)
  next
    case False
    then obtain t r' where r: "r = t # r'" by (cases r) auto
    show ?thesis
    proof (cases "isObject (x s)")
      case True
      have "fieldP (deletePath x (s # r)) (s # r)
          = field_forEach (Some (ObjectValue (deletePath (asObject (x s)) r))) r"
        using False True by (simp add: deletePath_Cons fieldP_Cons)
      also have "\<dots> = fieldP (deletePath (asObject (x s)) r) r"
        by (simp add: fieldP_def)
      also have "\<dots> = None"
        using False by (rule Cons.IH)
      finally show ?thesis .
    next
      case nobj: False
      then show ?thesis
        using False r by (simp add: deletePath_Cons fieldP_Cons not_isObject_child
            field_forEach_None)
    qed
  qed
qed

lemma setPath_unchanged: "p \<noteq> [] \<Longrightarrow> fieldP x p = Some v \<Longrightarrow> setPath x p v = x"
proof (induction p arbitrary: x)
  case Nil
  then show ?case by simp
next
  case (Cons s r)
  show ?case
  proof (cases "r = []")
    case True
    with Cons.prems show ?thesis by (auto simp add: fieldP_Cons)
  next
    case False
    then obtain t r' where r: "r = t # r'" by (cases r) auto
    have obj: "isObject (x s)"
      using Cons.prems r
      by (cases "isObject (x s)")
         (simp_all add: fieldP_Cons not_isObject_child field_forEach_None)
    then have xs: "x s = Some (ObjectValue (asObject (x s)))" by (rule isObject_eq)
    have "fieldP (asObject (x s)) r = field_forEach (x s) r"
      by (simp only: r field_forEach_asObject)
    with Cons.prems have "fieldP (asObject (x s)) r = Some v"
      by (simp add: fieldP_Cons)
    with False have "setPath (asObject (x s)) r v = asObject (x s)"
      by (rule Cons.IH)
    with False xs show ?thesis by (simp add: setPath_Cons fun_upd_idem)
  qed
qed

lemma deletePath_unchanged: "p \<noteq> [] \<Longrightarrow> fieldP x p = None \<Longrightarrow> deletePath x p = x"
proof (induction p arbitrary: x)
  case Nil
  then show ?case by simp
next
  case (Cons s r)
  show ?case
  proof (cases "r = []")
    case True
    with Cons.prems show ?thesis by (auto simp add: fieldP_Cons)
  next
    case False
    then obtain t r' where r: "r = t # r'" by (cases r) auto
    show ?thesis
    proof (cases "isObject (x s)")
      case nobj: False
      with False show ?thesis by (simp add: deletePath_Cons)
    next
      case obj: True
      then have xs: "x s = Some (ObjectValue (asObject (x s)))" by (rule isObject_eq)
      have "fieldP (asObject (x s)) r = field_forEach (x s) r"
        by (simp only: r field_forEach_asObject)
      with Cons.prems have "fieldP (asObject (x s)) r = None"
        by (simp add: fieldP_Cons)
      with False have "deletePath (asObject (x s)) r = asObject (x s)"
        by (rule Cons.IH)
      with False obj xs show ?thesis by (simp add: deletePath_Cons fun_upd_idem)
    qed
  qed
qed

lemma unrelated_Cons: "unrelated (s # p) (t # q) = (s \<noteq> t \<or> unrelated p q)"
  by (auto simp: unrelated_def)

lemma unrelated_Nil: "\<not> unrelated [] q" "\<not> unrelated p []"
  by (simp_all add: unrelated_def)

lemma setPath_apply:
  "setPath y (s # r) v a
     = (if a = s
        then (if r = [] then Some v else Some (ObjectValue (setPath (asObject (y s)) r v)))
        else y a)"
  by (cases r) simp_all

lemma deletePath_other_key: "t \<noteq> s \<Longrightarrow> deletePath x (s # r) t = x t"
  by (cases r) simp_all

lemma fieldP_setPath_unrelated:
  "unrelated p q \<Longrightarrow> fieldP (setPath x p v) q = fieldP x q"
proof (induction p arbitrary: x q)
  case Nil
  then show ?case by (simp add: unrelated_Nil)
next
  case (Cons s r)
  from Cons.prems obtain t q' where q: "q = t # q'"
    by (cases q) (auto simp: unrelated_Nil)
  show ?case
  proof (cases "s = t")
    case False
    then show ?thesis
      by (simp add: q fieldP_Cons setPath_apply)
  next
    case True
    with Cons.prems q have u: "unrelated r q'" by (simp add: unrelated_Cons)
    then have ne: "r \<noteq> []" "q' \<noteq> []" by (auto simp: unrelated_Nil)
    then obtain t' q'' where q': "q' = t' # q''" by (cases q') auto
    have "fieldP x q = field_forEach (x s) q'"
      by (simp add: q True fieldP_Cons)
    also have "\<dots> = fieldP (asObject (x s)) q'"
      by (simp only: q' field_forEach_asObject)
    also have "\<dots> = fieldP (setPath (asObject (x s)) r v) q'"
      using u by (rule Cons.IH [symmetric])
    also have "\<dots> = fieldP (setPath x (s # r) v) q"
      using ne True by (simp add: q setPath_Cons fieldP_Cons fieldP_def)
    finally show ?thesis by simp
  qed
qed

lemma fieldP_deletePath_unrelated:
  "unrelated p q \<Longrightarrow> fieldP (deletePath x p) q = fieldP x q"
proof (induction p arbitrary: x q)
  case Nil
  then show ?case by (simp add: unrelated_Nil)
next
  case (Cons s r)
  from Cons.prems obtain t q' where q: "q = t # q'"
    by (cases q) (auto simp: unrelated_Nil)
  show ?case
  proof (cases "s = t")
    case False
    then show ?thesis
      by (simp add: q fieldP_Cons deletePath_other_key)
  next
    case True
    with Cons.prems q have u: "unrelated r q'" by (simp add: unrelated_Cons)
    then have ne: "r \<noteq> []" "q' \<noteq> []" by (auto simp: unrelated_Nil)
    then obtain t' q'' where q': "q' = t' # q''" by (cases q') auto
    show ?thesis
    proof (cases "isObject (x s)")
      case False
      with ne show ?thesis by (simp add: deletePath_Cons)
    next
      case obj: True
      have "fieldP x q = field_forEach (x s) q'"
        by (simp add: q True fieldP_Cons)
      also have "\<dots> = fieldP (asObject (x s)) q'"
        by (simp only: q' field_forEach_asObject)
      also have "\<dots> = fieldP (deletePath (asObject (x s)) r) q'"
        using u by (rule Cons.IH [symmetric])
      also have "\<dots> = fieldP (deletePath x (s # r)) q"
        using ne True obj by (simp add: q deletePath_Cons fieldP_Cons fieldP_def)
      finally show ?thesis by simp
    qed
  qed
qed

subsection \<open>Successive sets\<close>

lemma setPath_absorb:
  "prefix p q \<Longrightarrow> p \<noteq> [] \<Longrightarrow> setPath (setPath x q w) p v = setPath x p v"
proof (induction p arbitrary: x q)
  case Nil
  then show ?case by simp
next
  case (Cons s r)
  from Cons.prems obtain q' where q: "q = s # q'" and pr: "prefix r q'"
    by (cases q) auto
  show ?case
  proof (cases "r = []")
    case True
    then show ?thesis by (auto simp add: q setPath_apply fun_eq_iff)
  next
    case False
    with pr have q': "q' \<noteq> []" by auto
    have "setPath (setPath (asObject (x s)) q' w) r v = setPath (asObject (x s)) r v"
      using pr False by (rule Cons.IH)
    with False q' show ?thesis
      by (auto simp add: q setPath_apply fun_eq_iff)
  qed
qed

lemma setPath_commute:
  "unrelated p q \<Longrightarrow> setPath (setPath x q w) p v = setPath (setPath x p v) q w"
proof (induction p arbitrary: x q)
  case Nil
  then show ?case by (simp add: unrelated_Nil)
next
  case (Cons s r)
  from Cons.prems obtain t q' where q: "q = t # q'"
    by (cases q) (auto simp: unrelated_Nil)
  show ?case
  proof (cases "s = t")
    case False
    then show ?thesis
      by (auto simp add: q setPath_apply fun_eq_iff)
  next
    case True
    with Cons.prems q have u: "unrelated r q'" by (simp add: unrelated_Cons)
    then have ne: "r \<noteq> []" "q' \<noteq> []" by (auto simp: unrelated_Nil)
    have "setPath (setPath (asObject (x s)) q' w) r v
        = setPath (setPath (asObject (x s)) r v) q' w"
      using u by (rule Cons.IH)
    with ne True show ?thesis
      by (auto simp add: q setPath_apply fun_eq_iff)
  qed
qed

lemma setPath_extend:
  "q \<noteq> [] \<Longrightarrow> r \<noteq> [] \<Longrightarrow>
   setPath (setPath x q w) (q @ r) v
     = setPath x q (ObjectValue (setPath (asObject (Some w)) r v))"
proof (induction q arbitrary: x)
  case Nil
  then show ?case by simp
next
  case (Cons s q')
  show ?case
  proof (cases "q' = []")
    case True
    with Cons.prems show ?thesis by (auto simp add: setPath_apply fun_eq_iff)
  next
    case False
    with Cons.IH [of "asObject (x s)"] Cons.prems show ?thesis
      by (auto simp add: setPath_apply fun_eq_iff)
  qed
qed

lemma setPath_cong:
  assumes "p \<noteq> []" and "q \<noteq> []" and eq: "setPath x p v = setPath y p v"
  shows "setPath (setPath x q w) p v = setPath (setPath y q w) p v"
proof (cases "prefix p q")
  case True
  with assms show ?thesis by (simp add: setPath_absorb)
next
  case np: False
  show ?thesis
  proof (cases "prefix q p")
    case True
    then obtain r where p: "p = q @ r" by (auto simp: prefix_def)
    with np have r: "r \<noteq> []" by auto
    define w' where "w' = ObjectValue (setPath (asObject (Some w)) r v)"
    have a: "setPath (setPath z q w) p v = setPath z q w'" for z
      unfolding p w'_def using assms(2) r by (rule setPath_extend)
    have b: "setPath z q w' = setPath (setPath z p v) q w'" for z
      using True assms(2) by (simp add: setPath_absorb)
    have "setPath x q w' = setPath (setPath x p v) q w'" by (rule b)
    also have "\<dots> = setPath (setPath y p v) q w'" by (simp add: eq)
    also have "\<dots> = setPath y q w'" by (rule b [symmetric])
    finally show ?thesis by (simp add: a)
  next
    case False
    with np have "unrelated p q" by (simp add: unrelated_def)
    then show ?thesis by (simp add: setPath_commute eq)
  qed
qed

lemma setAll_cong:
  assumes "(p, v) \<in> set zs" and "\<forall>(q, w) \<in> set zs. q \<noteq> []"
    and "setPath x p v = setPath y p v"
  shows "setAll zs x = setAll zs y"
  using assms
proof (induction zs arbitrary: x y)
  case Nil
  then show ?case by simp
next
  case (Cons z zs)
  obtain q w where z: "z = (q, w)" by (cases z)
  show ?case
  proof (cases "(p, v) = (q, w)")
    case True
    with Cons.prems z show ?thesis by simp
  next
    case False
    with Cons.prems z have mem: "(p, v) \<in> set zs" by auto
    from Cons.prems z mem have ne: "p \<noteq> []" "q \<noteq> []" by auto
    have "setPath (setPath x q w) p v = setPath (setPath y q w) p v"
      using ne Cons.prems(3) by (rule setPath_cong)
    with Cons.IH [of "setPath x q w" "setPath y q w"] mem Cons.prems(2) z
    show ?thesis by simp
  qed
qed

lemma setAll_absorb:
  assumes "(p, v) \<in> set zs" and "\<forall>(q, w) \<in> set zs. q \<noteq> []"
  shows "setAll zs (setPath x p v) = setAll zs x"
proof -
  from assms have "p \<noteq> []" by auto
  then have "setPath (setPath x p v) p v = setPath x p v"
    by (simp add: setPath_absorb)
  with assms show ?thesis by (rule setAll_cong)
qed

lemma setAll_after_part:
  "set ys \<subseteq> set zs \<Longrightarrow> \<forall>(q, w) \<in> set zs. q \<noteq> [] \<Longrightarrow>
   setAll zs (setAll ys x) = setAll zs x"
proof (induction ys arbitrary: x)
  case Nil
  then show ?case by simp
next
  case (Cons z ys)
  obtain q w where z: "z = (q, w)" by (cases z)
  from Cons.prems z have mem: "(q, w) \<in> set zs" and sub: "set ys \<subseteq> set zs" by auto
  have "setAll zs (setAll (z # ys) x) = setAll zs (setAll ys (setPath x q w))"
    by (simp add: z)
  also have "\<dots> = setAll zs (setPath x q w)"
    using sub Cons.prems(2) by (rule Cons.IH)
  also have "\<dots> = setAll zs x"
    using mem Cons.prems(2) by (rule setAll_absorb)
  finally show ?case .
qed

lemma setAll_idem:
  "\<forall>(q, w) \<in> set zs. q \<noteq> [] \<Longrightarrow> setAll zs (setAll zs x) = setAll zs x"
  by (rule setAll_after_part) simp_all

subsection \<open>The patch loop\<close>

lemma assignPath_self: "p \<noteq> [] \<Longrightarrow> fieldP (assignPath D p x) p = fieldP D p"
  by (cases "fieldP D p")
     (simp_all add: assignPath_def fieldP_setPath_same fieldP_deletePath_same)

lemma assignPath_unchanged:
  "p \<noteq> [] \<Longrightarrow> fieldP x p = fieldP D p \<Longrightarrow> assignPath D p x = x"
  by (cases "fieldP D p")
     (simp_all add: assignPath_def setPath_unchanged deletePath_unchanged)

lemma fieldP_assignPath_unrelated:
  "unrelated q p \<Longrightarrow> fieldP (assignPath D q x) p = fieldP x p"
  by (cases "fieldP D q")
     (simp_all add: assignPath_def fieldP_setPath_unrelated fieldP_deletePath_unrelated)

lemma assignPath_preserves:
  assumes "q \<noteq> []" and agree: "fieldP x p = fieldP D p"
  shows "fieldP (assignPath D q x) p = fieldP D p"
proof (cases "prefix q p")
  case True
  then obtain r where p: "p = q @ r" by (auto simp: prefix_def)
  have "fieldP (assignPath D q x) p = field_forEach (fieldP (assignPath D q x) q) r"
    by (simp add: p fieldP_append)
  also have "\<dots> = field_forEach (fieldP D q) r"
    using assms(1) by (simp add: assignPath_self)
  also have "\<dots> = fieldP D p"
    by (simp add: p fieldP_append)
  finally show ?thesis .
next
  case nq: False
  show ?thesis
  proof (cases "prefix p q")
    case True
    then obtain r where q: "q = p @ r" by (auto simp: prefix_def)
    have "fieldP x q = fieldP D q"
      by (simp add: q fieldP_append agree)
    with assms(1) have "assignPath D q x = x" by (rule assignPath_unchanged)
    with agree show ?thesis by simp
  next
    case False
    with nq have "unrelated q p" by (simp add: unrelated_def)
    with agree show ?thesis by (simp add: fieldP_assignPath_unrelated)
  qed
qed

lemma patchAll_preserves:
  "[] \<notin> set M \<Longrightarrow> fieldP x p = fieldP D p \<Longrightarrow> fieldP (patchAll D M x) p = fieldP D p"
proof (induction M arbitrary: x)
  case Nil
  then show ?case by simp
next
  case (Cons q M)
  from Cons.prems have "q \<noteq> []" and M: "[] \<notin> set M" by auto
  with Cons.prems(2) have "fieldP (assignPath D q x) p = fieldP D p"
    by (simp add: assignPath_preserves)
  with M show ?case by (simp add: Cons.IH)
qed

lemma patchAll_agree:
  "[] \<notin> set M \<Longrightarrow> p \<in> set M \<Longrightarrow> fieldP (patchAll D M x) p = fieldP D p"
proof (induction M arbitrary: x)
  case Nil
  then show ?case by simp
next
  case (Cons q M)
  from Cons.prems have q: "q \<noteq> []" and M: "[] \<notin> set M" by auto
  show ?case
  proof (cases "p = q")
    case True
    with q have "fieldP (assignPath D q x) p = fieldP D p"
      by (simp add: assignPath_self)
    with M show ?thesis by (simp add: patchAll_preserves)
  next
    case False
    with Cons.prems have "p \<in> set M" by simp
    with M show ?thesis by (simp add: Cons.IH)
  qed
qed

lemma patchAll_unchanged:
  "[] \<notin> set M \<Longrightarrow> \<forall>p \<in> set M. fieldP x p = fieldP D p \<Longrightarrow> patchAll D M x = x"
proof (induction M arbitrary: x)
  case Nil
  then show ?case by simp
next
  case (Cons q M)
  from Cons.prems have "q \<noteq> []" and "fieldP x q = fieldP D q" by auto
  then have "assignPath D q x = x" by (rule assignPath_unchanged)
  with Cons.prems show ?case by (simp add: Cons.IH)
qed

lemma patchAll_idem: "[] \<notin> set M \<Longrightarrow> patchAll D M (patchAll D M x) = patchAll D M x"
  by (rule patchAll_unchanged) (simp_all add: patchAll_agree)

lemma fieldP_patchAll_unrelated:
  "\<forall>p \<in> set M. unrelated p q \<Longrightarrow> fieldP (patchAll D M x) q = fieldP x q"
  by (induction M arbitrary: x) (simp_all add: fieldP_assignPath_unrelated)

lemma patchAll_same_values:
  "\<forall>p \<in> set M. fieldP D' p = fieldP D p \<Longrightarrow> patchAll D' M x = patchAll D M x"
  by (induction M arbitrary: x) (simp_all add: assignPath_def)

lemma patchObject_eq:
  "patchObject D M x =
     (if [] \<in> set M then Inl (AssertionFailed ''Cannot get field of empty path'')
      else Inr (patchAll D M x))"
proof (induction M arbitrary: x)
  case Nil
  then show ?case by simp
next
  case (Cons p M)
  show ?case
  proof (cases "p = []")
    case True
    then show ?thesis by (simp add: ObjectValue_field_def assert_def fail_def)
  next
    case False
    then show ?thesis
      by (cases "fieldP D p")
         (simp_all add: ObjectValue_field_def ObjectValue_set_def ObjectValue_delete_def
            assert_def assignPath_def fieldP_def Cons.IH)
  qed
qed

lemma patchReference_fold:
  "fold (\<lambda>p acc. andThen acc (\<lambda>obj.
           andThen (ObjectValue_field D p) (\<lambda>newValue.
             case newValue of
               Some v \<Rightarrow> ObjectValue_set obj p v
             | None \<Rightarrow> ObjectValue_delete obj p)))
     M acc
   = andThen acc (patchObject D M)"
proof (induction M arbitrary: acc)
  case Nil
  then show ?case by (cases acc) simp_all
next
  case (Cons p M)
  show ?case
  proof (cases acc)
    case (Inl e)
    then show ?thesis by (simp add: Cons.IH)
  next
    case (Inr x)
    then show ?thesis
      by (simp add: Cons.IH split: sum.splits option.splits)
  qed
qed

lemma patchDocument_baseData:
  "patchDocument D fm maybeDoc = patchObject D (FieldMask.fields fm) (baseData maybeDoc)"
  by (simp add: patchDocument_def baseData_def)

lemma patchDocument_idem:
  assumes "patchDocument D fm maybeDoc = Inr nd"
  shows "patchDocument D fm (Some (Document k v nd h)) = Inr nd"
proof -
  from assms have ne: "[] \<notin> set (FieldMask.fields fm)"
    and nd: "nd = patchAll D (FieldMask.fields fm) (baseData maybeDoc)"
    by (auto simp: patchDocument_baseData patchObject_eq split: if_splits)
  then show ?thesis
    by (simp add: patchDocument_baseData patchObject_eq baseData_def patchAll_idem)
qed

subsection \<open>The transform loop\<close>

lemma transformObject_loop_Inr:
  "transformObject_loop zs x = Inr nd \<Longrightarrow>
     (\<forall>(q, w) \<in> set (assignments zs). q \<noteq> [])
     \<and> (\<forall>y. transformObject_loop zs y = Inr (setAll (assignments zs) y))"
proof (induction zs arbitrary: x)
  case Nil
  then show ?case by (simp add: assignments_def)
next
  case (Cons z zs)
  obtain ft r where z: "z = (ft, r)" by (cases z)
  show ?case
  proof (cases "transform ft")
    case (OtherTransform c)
    with Cons.prems z show ?thesis by (simp add: fail_def)
  next
    case ServerTimestampTransform
    show ?thesis
    proof (cases "field ft = []")
      case True
      with Cons.prems z ServerTimestampTransform show ?thesis
        by (simp add: ObjectValue_set_def assert_def fail_def)
    next
      case False
      with Cons.prems z ServerTimestampTransform
      have "transformObject_loop zs (setPath x (field ft) r) = Inr nd"
        by (simp add: ObjectValue_set_def assert_def)
      then have "(\<forall>(q, w) \<in> set (assignments zs). q \<noteq> [])
         \<and> (\<forall>y. transformObject_loop zs y = Inr (setAll (assignments zs) y))"
        by (rule Cons.IH)
      with False z ServerTimestampTransform show ?thesis
        by (simp add: assignments_def ObjectValue_set_def assert_def)
    qed
  qed
qed

lemma transformObject_loop_idem:
  assumes "transformObject_loop zs x = Inr nd"
  shows "transformObject_loop zs nd = Inr nd"
proof -
  from assms have ne: "\<forall>(q, w) \<in> set (assignments zs). q \<noteq> []"
    and all: "\<And>y. transformObject_loop zs y = Inr (setAll (assignments zs) y)"
    using transformObject_loop_Inr by blast+
  from assms all [of x] have "nd = setAll (assignments zs) x" by simp
  with ne all [of nd] show ?thesis by (simp add: setAll_idem)
qed

lemma transformObject_idem:
  "transformObject fts dat rs = Inr nd \<Longrightarrow> transformObject fts nd rs = Inr nd"
  by (auto simp: transformObject_def assert_def fail_def split: if_splits
      intro: transformObject_loop_idem)

subsection \<open>Applying a mutation to what it returned\<close>

lemma SetMutation_local_idem:
  "andThen (SetMutation_applyToLocalView key val p d b t)
     (\<lambda>d'. SetMutation_applyToLocalView key val p d' b t)
   = SetMutation_applyToLocalView key val p d b t"
proof -
  obtain v1 where v1: "isValidFor p d = Inr v1" using isValidFor_total by blast
  obtain v2 where v2:
    "isValidFor p (Some (Document key (getPostMutationVersion d) val True)) = Inr v2"
    using isValidFor_total by blast
  show ?thesis using v1 v2
    by (simp add: SetMutation_applyToLocalView_def verifyKeyMatches_hasKey hasKey_def)
qed

lemma PatchMutation_local_idem:
  "andThen (PatchMutation_applyToLocalView key dat fm p d b t)
     (\<lambda>d'. PatchMutation_applyToLocalView key dat fm p d' b t)
   = PatchMutation_applyToLocalView key dat fm p d b t"
proof (cases "patchDocument dat fm d")
  case (Inl e)
  obtain v1 where v1: "isValidFor p d = Inr v1" using isValidFor_total by blast
  with Inl show ?thesis
    by (simp add: PatchMutation_applyToLocalView_def verifyKeyMatches_hasKey)
next
  case (Inr nd)
  obtain v1 where v1: "isValidFor p d = Inr v1" using isValidFor_total by blast
  obtain v2 where v2:
    "isValidFor p (Some (Document key (getPostMutationVersion d) nd True)) = Inr v2"
    using isValidFor_total by blast
  have "patchDocument dat fm (Some (Document key (getPostMutationVersion d) nd True)) = Inr nd"
    using Inr by (rule patchDocument_idem)
  with Inr v1 v2 show ?thesis
    by (simp add: PatchMutation_applyToLocalView_def verifyKeyMatches_hasKey hasKey_def)
qed

lemma DeleteMutation_local_idem:
  "andThen (DeleteMutation_applyToLocalView key p d b t)
     (\<lambda>d'. DeleteMutation_applyToLocalView key p d' b t)
   = DeleteMutation_applyToLocalView key p d b t"
proof -
  obtain v1 where v1: "isValidFor p d = Inr v1" using isValidFor_total by blast
  obtain v2 where v2:
    "isValidFor p (Some (NoDocument key SnapshotVersion_forDeletedDoc)) = Inr v2"
    using isValidFor_total by blast
  show ?thesis using v1 v2
    by (cases d)
       (simp_all add: DeleteMutation_applyToLocalView_def verifyKeyMatches_hasKey hasKey_def
          assert_def)
qed

lemma TransformMutation_local_idem:
  "andThen (TransformMutation_applyToLocalView key fts d b t)
     (\<lambda>d'. TransformMutation_applyToLocalView key fts d' b t)
   = TransformMutation_applyToLocalView key fts d b t"
proof (cases d)
  case None
  then show ?thesis
    by (simp add: TransformMutation_applyToLocalView_def assert_def isValidFor_def
        Precondition_exists_def)
next
  case (Some doc)
  show ?thesis
  proof (cases doc)
    case (NoDocument k v)
    with Some show ?thesis
      by (simp add: TransformMutation_applyToLocalView_def assert_def isValidFor_def
          Precondition_exists_def fail_def)
  next
    case (Document k v dat h)
    show ?thesis
    proof (cases "k = key")
      case False
      with Some Document show ?thesis
        by (simp add: TransformMutation_applyToLocalView_def assert_def fail_def)
    next
      case True
      show ?thesis
      proof (cases "localTransformResults fts t b")
        case (Inl e)
        with Some Document True show ?thesis
          by (simp add: TransformMutation_applyToLocalView_def assert_def isValidFor_def
              Precondition_exists_def)
      next
        case (Inr rs)
        show ?thesis
        proof (cases "transformObject fts dat rs")
          case (Inl e)
          with Some Document True Inr show ?thesis
            by (simp add: TransformMutation_applyToLocalView_def assert_def isValidFor_def
                Precondition_exists_def)
        next
          case nd: (Inr nd)
          then have "transformObject fts nd rs = Inr nd"
            by (rule transformObject_idem)
          with Some Document True Inr nd show ?thesis
            by (simp add: TransformMutation_applyToLocalView_def assert_def isValidFor_def
                Precondition_exists_def)
        qed
      qed
    qed
  qed
qed

subsection \<open>The remote path of a transform, and equality\<close>

lemma Transform_remote_missing:
  "transformResults r = None \<Longrightarrow>
     \<exists>msg. TransformMutation_applyToRemoteDocument key fts d r = Inl (AssertionFailed msg)"
  by (simp add: TransformMutation_applyToRemoteDocument_def verifyKeyMatches_hasKey
      assert_def fail_def)

lemma Transform_remote_mismatch:
  "transformResults r = Some rs \<Longrightarrow> length rs \<noteq> length fts \<Longrightarrow>
   isValidFor (Precondition_exists True) d = Inr True \<Longrightarrow>
     \<exists>msg. TransformMutation_applyToRemoteDocument key fts d r = Inl (AssertionFailed msg)"
  by (cases "(key, d)" rule: requireDocument.cases)
     (auto simp: TransformMutation_applyToRemoteDocument_def verifyKeyMatches_hasKey
        transformObject_def assert_def fail_def)

lemma Transform_remote_invalid:
  "transformResults r = Some rs \<Longrightarrow> hasKey key d \<Longrightarrow>
   isValidFor (Precondition_exists True) d = Inr False \<Longrightarrow>
     TransformMutation_applyToRemoteDocument key fts d r = Inr d"
  by (simp add: TransformMutation_applyToRemoteDocument_def verifyKeyMatches_hasKey
      assert_def)

lemma Transform_remote_returns:
  assumes "transformResults r = Some rs" and "length rs \<noteq> length fts"
    and "TransformMutation_applyToRemoteDocument key fts d r = Inr out"
  shows "isValidFor (Precondition_exists True) d = Inr False \<and> out = d"
proof -
  obtain b where b: "isValidFor (Precondition_exists True) d = Inr b"
    using isValidFor_total by blast
  have "\<not> b"
    using assms Transform_remote_mismatch [of r rs fts d key] b by (cases b) auto
  moreover have "hasKey key d"
    using assms(3)
    by (auto simp: TransformMutation_applyToRemoteDocument_def verifyKeyMatches_hasKey
        split: if_splits)
  ultimately show ?thesis
    using assms b Transform_remote_invalid [of r rs key d fts] by simp
qed

lemma misc_equals_eq: "misc_equals (=) l r = (l = r)"
  by (cases "((=) :: 'a \<Rightarrow> 'a \<Rightarrow> bool, l, r)" rule: misc_equals.cases) simp_all

lemma misc_arrayEquals_eq: "misc_arrayEquals (=) ls rs = (ls = rs)"
  by (induction "(=) :: 'a \<Rightarrow> 'a \<Rightarrow> bool" ls rs rule: misc_arrayEquals.induct) simp_all

lemma Precondition_isEqual_eq: "Precondition_isEqual p q = (p = q)"
  by (cases p, cases q) (auto simp add: Precondition_isEqual_def misc_equals_eq)

lemma Precondition_isEqual_exists_updateTime:
  "\<not> Precondition_isEqual (Precondition_exists ex) (Precondition_updateTime v)
   \<and> \<not> Precondition_isEqual (Precondition_updateTime v) (Precondition_exists ex)"
  by (simp add: Precondition_isEqual_def Precondition_exists_def Precondition_updateTime_def)

lemma SetMutation_isEqual_structural:
  "SetMutation_isEqual (SetMutation key val p) (SetMutation key' val' p')
     = (key = key' \<and> val = val' \<and> p = p')"
  by (simp add: Precondition_isEqual_eq)

lemma DeleteMutation_isEqual_structural:
  "DeleteMutation_isEqual (DeleteMutation key p) (DeleteMutation key' p')
     = (key = key' \<and> p = p')"
  by (simp add: Precondition_isEqual_eq)

section \<open>Preconditions against documents\<close>

text \<open>
  C9. \<^verbatim>\<open>Precondition.isValidFor(maybeDoc)\<close> returns without aborting, and its value is:
  for an update-time precondition, true exactly when the input is a \<^verbatim>\<open>Document\<close> whose version
  equals that time; for \<^verbatim>\<open>exists(true)\<close>, true exactly when the input is a \<^verbatim>\<open>Document\<close>; for
  \<^verbatim>\<open>exists(false)\<close>, true exactly when the input is absent or a \<^verbatim>\<open>NoDocument\<close>; for the empty
  precondition, true on every input.
\<close>

theorem isValidFor_cases:
  "isValidFor (Precondition_updateTime v) maybeDoc
     = Inr (\<exists>k d h. maybeDoc = Some (Document k v d h))
   \<and> isValidFor (Precondition_exists True) maybeDoc
     = Inr (\<exists>k ver d h. maybeDoc = Some (Document k ver d h))
   \<and> isValidFor (Precondition_exists False) maybeDoc
     = Inr (maybeDoc = None \<or> (\<exists>k ver. maybeDoc = Some (NoDocument k ver)))
   \<and> isValidFor Precondition_NONE maybeDoc = Inr True"
proof (cases maybeDoc)
  case None
  then show ?thesis
    by (simp add: isValidFor_def Precondition_updateTime_def Precondition_exists_def
        Precondition_NONE_def isNone_def assert_def)
next
  case (Some doc)
  then show ?thesis
    by (cases doc)
       (auto simp add: isValidFor_def Precondition_updateTime_def Precondition_exists_def
        Precondition_NONE_def isNone_def assert_def)
qed

text \<open>The four cases on a document at version 3: an update time of 3 and \<^verbatim>\<open>exists(true)\<close>
  hold for it, \<^verbatim>\<open>exists(false)\<close> does not.\<close>

theorem isValidFor_cases_witness:
  "isValidFor (Precondition_updateTime (SnapshotVersion_at 3))
     (Some (Document (DocumentKey ''coll/a'') (SnapshotVersion_at 3) ObjectValue_EMPTY False))
     = Inr True
   \<and> isValidFor (Precondition_exists True)
     (Some (Document (DocumentKey ''coll/a'') (SnapshotVersion_at 3) ObjectValue_EMPTY False))
     = Inr True
   \<and> isValidFor (Precondition_exists False)
     (Some (Document (DocumentKey ''coll/a'') (SnapshotVersion_at 3) ObjectValue_EMPTY False))
     = Inr False
   \<and> isValidFor Precondition_NONE
     (Some (Document (DocumentKey ''coll/a'') (SnapshotVersion_at 3) ObjectValue_EMPTY False))
     = Inr True"
  using isValidFor_cases
      [of "SnapshotVersion_at 3"
          "Some (Document (DocumentKey ''coll/a'') (SnapshotVersion_at 3)
                   ObjectValue_EMPTY False)"]
  by auto

section \<open>SetMutation on the remote path\<close>

text \<open>
  C1, as amended. For every input \<^verbatim>\<open>maybeDoc\<close> (a \<^verbatim>\<open>Document\<close>, a \<^verbatim>\<open>NoDocument\<close> or absent) that,
  when not absent, carries the key of the mutation, and every \<^verbatim>\<open>MutationResult\<close> whose
  transform results are absent, \<^verbatim>\<open>SetMutation.applyToRemoteDocument\<close> returns
  \<^verbatim>\<open>Document(key, v, value, hasLocalMutations=false)\<close> whatever the precondition of the mutation
  is, where \<open>v\<close> is the version of the input when the input is a \<^verbatim>\<open>Document\<close> and \<^verbatim>\<open>MIN\<close>
  otherwise.
\<close>

theorem SetMutation_applyToRemoteDocument_result:
  assumes "hasKey key maybeDoc" and "transformResults mutationResult = None"
  shows "SetMutation_applyToRemoteDocument key val precondition maybeDoc mutationResult
     = Inr (Some (Document key
              (case maybeDoc of Some (Document k v d h) \<Rightarrow> v | _ \<Rightarrow> SnapshotVersion_MIN)
              val False))"
proof -
  have "getPostMutationVersion maybeDoc
      = (case maybeDoc of Some (Document k v d h) \<Rightarrow> v | _ \<Rightarrow> SnapshotVersion_MIN)"
    by (cases maybeDoc rule: getPostMutationVersion.cases) simp_all
  with assms show ?thesis
    by (simp add: SetMutation_applyToRemoteDocument_def verifyKeyMatches_hasKey assert_def)
qed

text \<open>Applied remotely to \<^verbatim>\<open>NoDocument(v=3)\<close> of its own key, under a precondition that does
  not hold for it, a set mutation yields \<^verbatim>\<open>Document(version=MIN, hasLocalMutations=false)\<close>.\<close>

theorem SetMutation_applyToRemoteDocument_result_witness:
  "SetMutation_applyToRemoteDocument (DocumentKey ''coll/a'') [''a'' \<mapsto> IntegerValue 1]
     (Precondition_exists True)
     (Some (NoDocument (DocumentKey ''coll/a'') (SnapshotVersion_at 3)))
     \<lparr>version = Some (SnapshotVersion_at 4), transformResults = None\<rparr>
   = Inr (Some (Document (DocumentKey ''coll/a'') SnapshotVersion_MIN
                  [''a'' \<mapsto> IntegerValue 1] False))"
  using SetMutation_applyToRemoteDocument_result
      [of "DocumentKey ''coll/a''"
          "Some (NoDocument (DocumentKey ''coll/a'') (SnapshotVersion_at 3))"
          "\<lparr>version = Some (SnapshotVersion_at 4), transformResults = None\<rparr>"
          "[''a'' \<mapsto> IntegerValue 1]" "Precondition_exists True"]
  by (simp add: hasKey_def)

text \<open>Without the condition on the key the statement fails: on a \<^verbatim>\<open>NoDocument\<close> of another
  key the method aborts in \<^verbatim>\<open>verifyKeyMatches\<close> and returns no document.\<close>

theorem SetMutation_applyToRemoteDocument_other_key:
  "SetMutation_applyToRemoteDocument (DocumentKey ''coll/a'') [''a'' \<mapsto> IntegerValue 1]
     Precondition_NONE
     (Some (NoDocument (DocumentKey ''coll/b'') (SnapshotVersion_at 3)))
     \<lparr>version = Some (SnapshotVersion_at 4), transformResults = None\<rparr>
   = Inl (AssertionFailed ''Can only apply a mutation to a document with the same key'')
   \<and> SetMutation_applyToRemoteDocument (DocumentKey ''coll/a'') [''a'' \<mapsto> IntegerValue 1]
     Precondition_NONE
     (Some (NoDocument (DocumentKey ''coll/b'') (SnapshotVersion_at 3)))
     \<lparr>version = Some (SnapshotVersion_at 4), transformResults = None\<rparr>
   \<noteq> Inr (Some (Document (DocumentKey ''coll/a'') SnapshotVersion_MIN
                  [''a'' \<mapsto> IntegerValue 1] False))"
  by (simp add: SetMutation_applyToRemoteDocument_def assert_def fail_def)

section \<open>The patch algorithm\<close>

text \<open>
  C2, as amended. For every patch mutation with candidate data \<open>D\<close> and field mask \<open>M\<close> and
  every input document, the outcome of \<^verbatim>\<open>patchDocument\<close> is that of the reference computation:
  start from the data of the input when it is a \<^verbatim>\<open>Document\<close>, else from \<^verbatim>\<open>ObjectValue.EMPTY\<close>;
  then, for each path of \<open>M\<close> in mask order, set the path to \<open>D\<close>'s value when \<open>D\<close> has
  one and delete it otherwise (an empty path in the mask aborts both). A path of which no
  path of \<open>M\<close> is a prefix or an extension keeps its base value, and two candidate objects
  with the same value at every path of \<open>M\<close> give the same result, so that what \<open>D\<close> holds
  elsewhere has no effect. In particular the base \<open>{a: 1, b: 2}\<close> with mask \<open>[a]\<close> gives
  \<open>{a: 9, b: 2}\<close> for the data \<open>{a: 9}\<close> and \<open>{b: 2}\<close> for the data \<open>{}\<close>.
\<close>

theorem patchDocument_reference:
  "patchDocument D (FieldMask M) maybeDoc = patchReference D M maybeDoc
   \<and> (\<forall>res q. patchDocument D (FieldMask M) maybeDoc = Inr res
          \<and> (\<forall>p \<in> set M. unrelated p q) \<longrightarrow>
          ObjectValue_field res q = ObjectValue_field (baseData maybeDoc) q)
   \<and> (\<forall>D'. (\<forall>p \<in> set M. ObjectValue_field D' p = ObjectValue_field D p) \<longrightarrow>
          patchDocument D' (FieldMask M) maybeDoc = patchDocument D (FieldMask M) maybeDoc)
   \<and> patchDocument [''a'' \<mapsto> IntegerValue 9] (FieldMask [[''a'']])
        (Some (Document k v [''a'' \<mapsto> IntegerValue 1, ''b'' \<mapsto> IntegerValue 2] h))
      = Inr [''a'' \<mapsto> IntegerValue 9, ''b'' \<mapsto> IntegerValue 2]
   \<and> patchDocument ObjectValue_EMPTY (FieldMask [[''a'']])
        (Some (Document k v [''a'' \<mapsto> IntegerValue 1, ''b'' \<mapsto> IntegerValue 2] h))
      = Inr [''b'' \<mapsto> IntegerValue 2]"
proof (intro conjI allI impI)
  show "patchDocument D (FieldMask M) maybeDoc = patchReference D M maybeDoc"
    by (simp add: patchDocument_baseData patchReference_def patchReference_fold)
next
  fix res q
  assume a: "patchDocument D (FieldMask M) maybeDoc = Inr res
          \<and> (\<forall>p \<in> set M. unrelated p q)"
  then have "res = patchAll D M (baseData maybeDoc)"
    by (auto simp: patchDocument_baseData patchObject_eq split: if_splits)
  with a have "fieldP res q = fieldP (baseData maybeDoc) q"
    by (simp add: fieldP_patchAll_unrelated)
  then show "ObjectValue_field res q = ObjectValue_field (baseData maybeDoc) q"
    by (simp add: ObjectValue_field_def fieldP_def)
next
  fix D'
  assume a: "\<forall>p \<in> set M. ObjectValue_field D' p = ObjectValue_field D p"
  have "fieldP D' p = fieldP D p" if "p \<in> set M" "[] \<notin> set M" for p
  proof -
    from that have "p \<noteq> []" by auto
    with a that(1) show ?thesis
      by (auto simp: ObjectValue_field_def assert_def fieldP_def)
  qed
  then show "patchDocument D' (FieldMask M) maybeDoc = patchDocument D (FieldMask M) maybeDoc"
    by (simp add: patchDocument_baseData patchObject_eq patchAll_same_values)
next
  show "patchDocument [''a'' \<mapsto> IntegerValue 9] (FieldMask [[''a'']])
        (Some (Document k v [''a'' \<mapsto> IntegerValue 1, ''b'' \<mapsto> IntegerValue 2] h))
      = Inr [''a'' \<mapsto> IntegerValue 9, ''b'' \<mapsto> IntegerValue 2]"
    by (auto simp add: patchDocument_def ObjectValue_field_def ObjectValue_set_def
        ObjectValue_delete_def assert_def fun_eq_iff)
next
  show "patchDocument ObjectValue_EMPTY (FieldMask [[''a'']])
        (Some (Document k v [''a'' \<mapsto> IntegerValue 1, ''b'' \<mapsto> IntegerValue 2] h))
      = Inr [''b'' \<mapsto> IntegerValue 2]"
    by (auto simp add: patchDocument_def ObjectValue_field_def ObjectValue_set_def
        ObjectValue_delete_def ObjectValue_EMPTY_def assert_def fun_eq_iff)
qed

text \<open>On the base \<open>{a: 1, b: 2}\<close> with mask \<open>[a]\<close>: the path \<open>b\<close> is unrelated to the mask
  and keeps its value 2, and the candidate entry \<open>b: 7\<close>, which the mask does not read,
  changes nothing.\<close>

theorem patchDocument_reference_witness:
  "ObjectValue_field [''a'' \<mapsto> IntegerValue 9, ''b'' \<mapsto> IntegerValue 2] [''b'']
     = Inr (Some (IntegerValue 2))
   \<and> patchDocument [''a'' \<mapsto> IntegerValue 9, ''b'' \<mapsto> IntegerValue 7]
        (FieldMask [[''a'']])
        (Some (Document (DocumentKey ''coll/a'') (SnapshotVersion_at 3)
                 [''a'' \<mapsto> IntegerValue 1, ''b'' \<mapsto> IntegerValue 2] False))
     = patchDocument [''a'' \<mapsto> IntegerValue 9] (FieldMask [[''a'']])
        (Some (Document (DocumentKey ''coll/a'') (SnapshotVersion_at 3)
                 [''a'' \<mapsto> IntegerValue 1, ''b'' \<mapsto> IntegerValue 2] False))"
proof -
  note t = patchDocument_reference
      [where D = "[''a'' \<mapsto> IntegerValue 9]" and M = "[[''a'']]"
         and maybeDoc = "Some (Document (DocumentKey ''coll/a'') (SnapshotVersion_at 3)
                 [''a'' \<mapsto> IntegerValue 1, ''b'' \<mapsto> IntegerValue 2] False)"
         and k = "DocumentKey ''coll/a''" and v = "SnapshotVersion_at 3" and h = False]
  from t have res: "patchDocument [''a'' \<mapsto> IntegerValue 9] (FieldMask [[''a'']])
        (Some (Document (DocumentKey ''coll/a'') (SnapshotVersion_at 3)
                 [''a'' \<mapsto> IntegerValue 1, ''b'' \<mapsto> IntegerValue 2] False))
      = Inr [''a'' \<mapsto> IntegerValue 9, ''b'' \<mapsto> IntegerValue 2]"
    by blast
  have "\<forall>p \<in> set [[''a'']]. unrelated p [''b'']"
    by (simp add: unrelated_def)
  with t res have "ObjectValue_field [''a'' \<mapsto> IntegerValue 9, ''b'' \<mapsto> IntegerValue 2] [''b'']
     = ObjectValue_field (baseData (Some (Document (DocumentKey ''coll/a'') (SnapshotVersion_at 3)
                 [''a'' \<mapsto> IntegerValue 1, ''b'' \<mapsto> IntegerValue 2] False))) [''b'']"
    by blast
  then have 1: "ObjectValue_field [''a'' \<mapsto> IntegerValue 9, ''b'' \<mapsto> IntegerValue 2] [''b'']
     = Inr (Some (IntegerValue 2))"
    by (simp add: baseData_def ObjectValue_field_def assert_def)
  have "\<forall>p \<in> set [[''a'']].
          ObjectValue_field [''a'' \<mapsto> IntegerValue 9, ''b'' \<mapsto> IntegerValue 7] p
            = ObjectValue_field [''a'' \<mapsto> IntegerValue 9] p"
    by (simp add: ObjectValue_field_def)
  with t have 2: "patchDocument [''a'' \<mapsto> IntegerValue 9, ''b'' \<mapsto> IntegerValue 7]
        (FieldMask [[''a'']])
        (Some (Document (DocumentKey ''coll/a'') (SnapshotVersion_at 3)
                 [''a'' \<mapsto> IntegerValue 1, ''b'' \<mapsto> IntegerValue 2] False))
     = patchDocument [''a'' \<mapsto> IntegerValue 9] (FieldMask [[''a'']])
        (Some (Document (DocumentKey ''coll/a'') (SnapshotVersion_at 3)
                 [''a'' \<mapsto> IntegerValue 1, ''b'' \<mapsto> IntegerValue 2] False))"
    by blast
  from 1 2 show ?thesis by (rule conjI)
qed

text \<open>A path outside the mask does not always keep its base value. Patching \<open>foo.bar\<close>
  into the base \<open>{foo: 1}\<close> replaces \<open>foo\<close>, which is not in the mask, by an object; and
  patching \<open>a\<close> over the base \<open>{a: {c: 2}}\<close> removes the value at \<open>a.c\<close>, which is not in
  the mask.\<close>

theorem patchDocument_changes_related_paths:
  "[''foo''] \<notin> set [[''foo'', ''bar'']]
   \<and> patchDocument [''foo'' \<mapsto> ObjectValue [''bar'' \<mapsto> IntegerValue 9]]
        (FieldMask [[''foo'', ''bar'']])
        (Some (Document (DocumentKey ''coll/a'') (SnapshotVersion_at 3)
                 [''foo'' \<mapsto> IntegerValue 1] False))
      = Inr [''foo'' \<mapsto> ObjectValue [''bar'' \<mapsto> IntegerValue 9]]
   \<and> ObjectValue_field [''foo'' \<mapsto> ObjectValue [''bar'' \<mapsto> IntegerValue 9]] [''foo'']
      = Inr (Some (ObjectValue [''bar'' \<mapsto> IntegerValue 9]))
   \<and> ObjectValue_field [''foo'' \<mapsto> IntegerValue 1] [''foo''] = Inr (Some (IntegerValue 1))
   \<and> [''a'', ''c''] \<notin> set [[''a'']]
   \<and> patchDocument [''a'' \<mapsto> IntegerValue 9] (FieldMask [[''a'']])
        (Some (Document (DocumentKey ''coll/a'') (SnapshotVersion_at 3)
                 [''a'' \<mapsto> ObjectValue [''c'' \<mapsto> IntegerValue 2]] False))
      = Inr [''a'' \<mapsto> IntegerValue 9]
   \<and> ObjectValue_field [''a'' \<mapsto> IntegerValue 9] [''a'', ''c''] = Inr None
   \<and> ObjectValue_field [''a'' \<mapsto> ObjectValue [''c'' \<mapsto> IntegerValue 2]] [''a'', ''c'']
      = Inr (Some (IntegerValue 2))"
  by (auto simp add: patchDocument_def ObjectValue_field_def ObjectValue_set_def
      ObjectValue_delete_def ObjectValue_EMPTY_def assert_def fun_eq_iff)

section \<open>DeleteMutation\<close>

text \<open>
  C3, as amended. For every delete mutation and every prior state (a \<^verbatim>\<open>Document\<close>, a
  \<^verbatim>\<open>NoDocument\<close> or absent) with matching key: \<^verbatim>\<open>applyToRemoteDocument\<close>, given a
  \<^verbatim>\<open>MutationResult\<close> whose transform results are absent, returns \<^verbatim>\<open>NoDocument(key, MIN)\<close>
  without looking at the precondition; \<^verbatim>\<open>applyToLocalView\<close> returns
  \<^verbatim>\<open>NoDocument(key, forDeletedDoc())\<close> when the precondition is valid for the prior state and
  the prior state unchanged when it is not; and the version \<^verbatim>\<open>forDeletedDoc()\<close> of the local
  tombstone is version 0, which is \<^verbatim>\<open>MIN\<close>.
\<close>

theorem DeleteMutation_results:
  assumes "hasKey key maybeDoc"
  shows "(transformResults mutationResult = None \<longrightarrow>
            DeleteMutation_applyToRemoteDocument key precondition maybeDoc mutationResult
              = Inr (Some (NoDocument key SnapshotVersion_MIN)))
       \<and> DeleteMutation_applyToLocalView key precondition maybeDoc baseDoc localWriteTime
              = Inr (if isValidFor precondition maybeDoc = Inr True
                     then Some (NoDocument key SnapshotVersion_forDeletedDoc)
                     else maybeDoc)
       \<and> SnapshotVersion_forDeletedDoc = SnapshotVersion_MIN"
proof -
  obtain b where b: "isValidFor precondition maybeDoc = Inr b"
    using isValidFor_total by blast
  have k: "(case maybeDoc of
              Some d \<Rightarrow> assert (MaybeDocument_key d = key)
                          ''Can only apply mutation to document with same key''
            | None \<Rightarrow> Inr ()) = Inr ()"
    using assms by (cases maybeDoc) (simp_all add: hasKey_def assert_def)
  show ?thesis
    using assms b k
    by (simp add: DeleteMutation_applyToRemoteDocument_def DeleteMutation_applyToLocalView_def
        verifyKeyMatches_hasKey assert_def SnapshotVersion_forDeletedDoc_def)
qed

text \<open>A document at version 3 deleted under the empty precondition, remotely and locally;
  and a local delete under \<^verbatim>\<open>exists(false)\<close>, which does not hold for the document and leaves
  it as it is.\<close>

theorem DeleteMutation_results_witness:
  "DeleteMutation_applyToRemoteDocument (DocumentKey ''coll/a'') Precondition_NONE
     (Some (Document (DocumentKey ''coll/a'') (SnapshotVersion_at 3) ObjectValue_EMPTY False))
     \<lparr>version = None, transformResults = None\<rparr>
   = Inr (Some (NoDocument (DocumentKey ''coll/a'') SnapshotVersion_MIN))
   \<and> DeleteMutation_applyToLocalView (DocumentKey ''coll/a'') Precondition_NONE
     (Some (Document (DocumentKey ''coll/a'') (SnapshotVersion_at 3) ObjectValue_EMPTY False))
     None (Timestamp 10 0)
   = Inr (Some (NoDocument (DocumentKey ''coll/a'') SnapshotVersion_forDeletedDoc))
   \<and> DeleteMutation_applyToLocalView (DocumentKey ''coll/a'') (Precondition_exists False)
     (Some (Document (DocumentKey ''coll/a'') (SnapshotVersion_at 3) ObjectValue_EMPTY False))
     None (Timestamp 10 0)
   = Inr (Some (Document (DocumentKey ''coll/a'') (SnapshotVersion_at 3) ObjectValue_EMPTY False))"
  using DeleteMutation_results
      [where key = "DocumentKey ''coll/a''" and precondition = Precondition_NONE
         and maybeDoc = "Some (Document (DocumentKey ''coll/a'') (SnapshotVersion_at 3)
                           ObjectValue_EMPTY False)"
         and mutationResult = "\<lparr>version = None, transformResults = None\<rparr>"
         and baseDoc = None and localWriteTime = "Timestamp 10 0"]
    DeleteMutation_results
      [where key = "DocumentKey ''coll/a''" and precondition = "Precondition_exists False"
         and maybeDoc = "Some (Document (DocumentKey ''coll/a'') (SnapshotVersion_at 3)
                           ObjectValue_EMPTY False)"
         and mutationResult = "\<lparr>version = None, transformResults = None\<rparr>"
         and baseDoc = None and localWriteTime = "Timestamp 10 0"]
  by (simp add: hasKey_def isValidFor_def Precondition_NONE_def Precondition_exists_def
      isNone_def assert_def)

text \<open>The statement without these amendments fails in three places. Under \<^verbatim>\<open>exists(true)\<close> a
  local delete applied to an absent document returns absent, not a tombstone. Where the
  local delete does apply, its tombstone is the document the remote path returns, at \<^verbatim>\<open>MIN\<close>:
  the two versions are not distinct. And the remote path aborts when the \<^verbatim>\<open>MutationResult\<close>
  carries transform results.\<close>

theorem DeleteMutation_local_and_remote:
  "DeleteMutation_applyToLocalView (DocumentKey ''coll/a'') (Precondition_exists True)
     None None (Timestamp 10 0)
   = Inr None
   \<and> DeleteMutation_applyToLocalView (DocumentKey ''coll/a'') Precondition_NONE
     (Some (Document (DocumentKey ''coll/a'') (SnapshotVersion_at 3) ObjectValue_EMPTY False))
     None (Timestamp 10 0)
   = Inr (Some (NoDocument (DocumentKey ''coll/a'') SnapshotVersion_MIN))
   \<and> DeleteMutation_applyToRemoteDocument (DocumentKey ''coll/a'') Precondition_NONE
     (Some (Document (DocumentKey ''coll/a'') (SnapshotVersion_at 3) ObjectValue_EMPTY False))
     \<lparr>version = None, transformResults = None\<rparr>
   = Inr (Some (NoDocument (DocumentKey ''coll/a'') SnapshotVersion_MIN))
   \<and> DeleteMutation_applyToRemoteDocument (DocumentKey ''coll/a'') Precondition_NONE
     (Some (Document (DocumentKey ''coll/a'') (SnapshotVersion_at 3) ObjectValue_EMPTY False))
     \<lparr>version = None, transformResults = Some []\<rparr>
   = Inl (AssertionFailed ''Transform results received by DeleteMutation.'')"
  by (simp add: DeleteMutation_applyToLocalView_def DeleteMutation_applyToRemoteDocument_def
      isValidFor_def Precondition_exists_def Precondition_NONE_def isNone_def assert_def
      fail_def SnapshotVersion_forDeletedDoc_def)

section \<open>TransformMutation on the local path\<close>

text \<open>
  C4, as amended. Every transform mutation has the precondition \<^verbatim>\<open>exists(true)\<close>, whatever
  key and field transforms it is constructed from, and \<^verbatim>\<open>applyToLocalView\<close> applied to an
  absent input, or to a \<^verbatim>\<open>NoDocument\<close> that carries the key of the mutation, returns that
  input unchanged: no \<^verbatim>\<open>Document\<close> is made from a document that does not exist.
\<close>

theorem TransformMutation_local_noop:
  "Mutation_precondition (TransformMutation key fieldTransforms) = Precondition_exists True
   \<and> (maybeDoc = None \<or> (\<exists>v. maybeDoc = Some (NoDocument key v)) \<longrightarrow>
        applyToLocalView (TransformMutation key fieldTransforms) maybeDoc baseDoc localWriteTime
          = Inr maybeDoc)"
  by (auto simp: TransformMutation_applyToLocalView_def isValidFor_def Precondition_exists_def
      assert_def)

text \<open>A server-timestamp transform applied locally to an absent document and to a
  \<^verbatim>\<open>NoDocument\<close> of its key.\<close>

theorem TransformMutation_local_noop_witness:
  "applyToLocalView
     (TransformMutation (DocumentKey ''coll/a'') [FieldTransform [''t''] ServerTimestampTransform])
     None None (Timestamp 10 0)
   = Inr None
   \<and> applyToLocalView
     (TransformMutation (DocumentKey ''coll/a'') [FieldTransform [''t''] ServerTimestampTransform])
     (Some (NoDocument (DocumentKey ''coll/a'') (SnapshotVersion_at 3))) None (Timestamp 10 0)
   = Inr (Some (NoDocument (DocumentKey ''coll/a'') (SnapshotVersion_at 3)))"
  using TransformMutation_local_noop
      [where key = "DocumentKey ''coll/a''"
         and fieldTransforms = "[FieldTransform [''t''] ServerTimestampTransform]"
         and maybeDoc = None and baseDoc = None and localWriteTime = "Timestamp 10 0"]
    TransformMutation_local_noop
      [where key = "DocumentKey ''coll/a''"
         and fieldTransforms = "[FieldTransform [''t''] ServerTimestampTransform]"
         and maybeDoc = "Some (NoDocument (DocumentKey ''coll/a'') (SnapshotVersion_at 3))"
         and baseDoc = None and localWriteTime = "Timestamp 10 0"]
  by simp

text \<open>A \<^verbatim>\<open>NoDocument\<close> of another key is not returned: \<^verbatim>\<open>verifyKeyMatches\<close> aborts.\<close>

theorem TransformMutation_applyToLocalView_other_key:
  "applyToLocalView
     (TransformMutation (DocumentKey ''coll/a'') [FieldTransform [''t''] ServerTimestampTransform])
     (Some (NoDocument (DocumentKey ''coll/b'') (SnapshotVersion_at 3))) None (Timestamp 10 0)
   = Inl (AssertionFailed ''Can only apply a mutation to a document with the same key'')
   \<and> applyToLocalView
     (TransformMutation (DocumentKey ''coll/a'') [FieldTransform [''t''] ServerTimestampTransform])
     (Some (NoDocument (DocumentKey ''coll/b'') (SnapshotVersion_at 3))) None (Timestamp 10 0)
   \<noteq> Inr (Some (NoDocument (DocumentKey ''coll/b'') (SnapshotVersion_at 3)))"
  by (simp add: TransformMutation_applyToLocalView_def assert_def fail_def)

section \<open>Equality of mutations\<close>

text \<open>
  C5. \<^verbatim>\<open>isEqual\<close> is meant to compare the key, the precondition and every field of a
  mutation. \<^verbatim>\<open>PatchMutation.isEqual\<close> compares the key, the field mask and the precondition
  and leaves \<^verbatim>\<open>data\<close> out: two patch mutations of the same key, mask and precondition with
  the candidate data \<open>{a: 1}\<close> and \<open>{a: 2}\<close> are reported equal although their data differ.
\<close>

theorem PatchMutation_isEqual_ignores_data:
  "PatchMutation_isEqual
     (PatchMutation (DocumentKey ''coll/a'') [''a'' \<mapsto> IntegerValue 1]
        (FieldMask [[''a'']]) Precondition_NONE)
     (PatchMutation (DocumentKey ''coll/a'') [''a'' \<mapsto> IntegerValue 2]
        (FieldMask [[''a'']]) Precondition_NONE)
   \<and> [''a'' \<mapsto> IntegerValue 1] \<noteq> [''a'' \<mapsto> IntegerValue 2]"
proof
  show "PatchMutation_isEqual
     (PatchMutation (DocumentKey ''coll/a'') [''a'' \<mapsto> IntegerValue 1]
        (FieldMask [[''a'']]) Precondition_NONE)
     (PatchMutation (DocumentKey ''coll/a'') [''a'' \<mapsto> IntegerValue 2]
        (FieldMask [[''a'']]) Precondition_NONE)"
    by (simp add: FieldMask_isEqual_def Precondition_isEqual_def Precondition_NONE_def)
  have "[''a'' \<mapsto> IntegerValue 1] ''a'' \<noteq> [''a'' \<mapsto> IntegerValue 2] ''a''"
    by simp
  then show "[''a'' \<mapsto> IntegerValue 1] \<noteq> [''a'' \<mapsto> IntegerValue 2]"
    by metis
qed

section \<open>PatchMutation under an invalid precondition\<close>

text \<open>
  C6, as amended. A patch mutation checks its precondition on the remote and on the local
  path: for every input \<^verbatim>\<open>maybeDoc\<close> that, when not absent, carries the key of the mutation,
  and for which the precondition is not valid, \<^verbatim>\<open>applyToLocalView\<close> returns \<^verbatim>\<open>maybeDoc\<close>
  unchanged, and so does \<^verbatim>\<open>applyToRemoteDocument\<close> for every \<^verbatim>\<open>MutationResult\<close> whose transform
  results are absent.
\<close>

theorem PatchMutation_invalid_precondition:
  assumes "hasKey key maybeDoc" and "isValidFor precondition maybeDoc = Inr False"
  shows "PatchMutation_applyToLocalView key dat fieldMask precondition maybeDoc baseDoc
           localWriteTime = Inr maybeDoc
       \<and> (transformResults mutationResult = None \<longrightarrow>
            PatchMutation_applyToRemoteDocument key dat fieldMask precondition maybeDoc
              mutationResult = Inr maybeDoc)"
  using assms
  by (simp add: PatchMutation_applyToLocalView_def PatchMutation_applyToRemoteDocument_def
      verifyKeyMatches_hasKey assert_def)

text \<open>A patch under \<^verbatim>\<open>exists(true)\<close> applied to a \<^verbatim>\<open>NoDocument\<close> of its key, locally and
  remotely.\<close>

theorem PatchMutation_invalid_precondition_witness:
  "PatchMutation_applyToLocalView (DocumentKey ''coll/a'') [''a'' \<mapsto> IntegerValue 9]
     (FieldMask [[''a'']]) (Precondition_exists True)
     (Some (NoDocument (DocumentKey ''coll/a'') (SnapshotVersion_at 3))) None (Timestamp 10 0)
   = Inr (Some (NoDocument (DocumentKey ''coll/a'') (SnapshotVersion_at 3)))
   \<and> PatchMutation_applyToRemoteDocument (DocumentKey ''coll/a'') [''a'' \<mapsto> IntegerValue 9]
     (FieldMask [[''a'']]) (Precondition_exists True)
     (Some (NoDocument (DocumentKey ''coll/a'') (SnapshotVersion_at 3)))
     \<lparr>version = Some (SnapshotVersion_at 4), transformResults = None\<rparr>
   = Inr (Some (NoDocument (DocumentKey ''coll/a'') (SnapshotVersion_at 3)))"
  using PatchMutation_invalid_precondition
      [where key = "DocumentKey ''coll/a''" and dat = "[''a'' \<mapsto> IntegerValue 9]"
         and fieldMask = "FieldMask [[''a'']]" and precondition = "Precondition_exists True"
         and maybeDoc = "Some (NoDocument (DocumentKey ''coll/a'') (SnapshotVersion_at 3))"
         and baseDoc = None and localWriteTime = "Timestamp 10 0"
         and mutationResult
           = "\<lparr>version = Some (SnapshotVersion_at 4), transformResults = None\<rparr>"]
  by (simp add: hasKey_def isValidFor_def Precondition_exists_def)

text \<open>The precondition \<^verbatim>\<open>exists(true)\<close> is not valid for a \<^verbatim>\<open>NoDocument\<close> of another key
  either, yet the local path does not return it: \<^verbatim>\<open>verifyKeyMatches\<close> aborts first.\<close>

theorem PatchMutation_applyToLocalView_other_key:
  "isValidFor (Precondition_exists True)
     (Some (NoDocument (DocumentKey ''coll/b'') (SnapshotVersion_at 3))) = Inr False
   \<and> PatchMutation_applyToLocalView (DocumentKey ''coll/a'') [''a'' \<mapsto> IntegerValue 9]
     (FieldMask [[''a'']]) (Precondition_exists True)
     (Some (NoDocument (DocumentKey ''coll/b'') (SnapshotVersion_at 3))) None (Timestamp 10 0)
   = Inl (AssertionFailed ''Can only apply a mutation to a document with the same key'')
   \<and> PatchMutation_applyToLocalView (DocumentKey ''coll/a'') [''a'' \<mapsto> IntegerValue 9]
     (FieldMask [[''a'']]) (Precondition_exists True)
     (Some (NoDocument (DocumentKey ''coll/b'') (SnapshotVersion_at 3))) None (Timestamp 10 0)
   \<noteq> Inr (Some (NoDocument (DocumentKey ''coll/b'') (SnapshotVersion_at 3)))"
  by (simp add: PatchMutation_applyToLocalView_def isValidFor_def Precondition_exists_def
      assert_def fail_def)

section \<open>TransformMutation on the remote path\<close>

text \<open>
  C7, as amended. \<^verbatim>\<open>TransformMutation.applyToRemoteDocument\<close> aborts with an assertion
  failure whenever the transform results of the \<^verbatim>\<open>MutationResult\<close> are absent. When they are
  present and their number differs from the number of field transforms, it aborts with an
  assertion failure if the precondition is valid for the input; when the precondition is
  not valid for an input of the mutation's key it returns the input unchanged, whatever
  the number of results; and with results of the wrong number it returns at all only in
  that case, the precondition being invalid and the value returned being the input.
\<close>

theorem TransformMutation_applyToRemoteDocument_fatal:
  "(transformResults r = None \<longrightarrow>
      (\<exists>msg. TransformMutation_applyToRemoteDocument key fts d r = Inl (AssertionFailed msg)))
   \<and> (\<forall>rs. transformResults r = Some rs \<and> length rs \<noteq> length fts
          \<and> isValidFor (Precondition_exists True) d = Inr True \<longrightarrow>
      (\<exists>msg. TransformMutation_applyToRemoteDocument key fts d r = Inl (AssertionFailed msg)))
   \<and> (\<forall>rs. transformResults r = Some rs \<and> hasKey key d
          \<and> isValidFor (Precondition_exists True) d = Inr False \<longrightarrow>
      TransformMutation_applyToRemoteDocument key fts d r = Inr d)
   \<and> (\<forall>rs out. transformResults r = Some rs \<and> length rs \<noteq> length fts
          \<and> TransformMutation_applyToRemoteDocument key fts d r = Inr out \<longrightarrow>
      isValidFor (Precondition_exists True) d = Inr False \<and> out = d)"
  using Transform_remote_missing [of r key fts d]
    Transform_remote_mismatch [of r _ fts d key]
    Transform_remote_invalid [of r _ key d fts]
    Transform_remote_returns [of r _ fts key d]
  by blast

text \<open>One server-timestamp transform: absent results on a document, an empty list of
  results on a document, and an empty list of results on a \<^verbatim>\<open>NoDocument\<close>.\<close>

theorem TransformMutation_applyToRemoteDocument_fatal_witness:
  "(\<exists>msg. TransformMutation_applyToRemoteDocument (DocumentKey ''coll/a'')
        [FieldTransform [''t''] ServerTimestampTransform]
        (Some (Document (DocumentKey ''coll/a'') (SnapshotVersion_at 3) ObjectValue_EMPTY False))
        \<lparr>version = Some (SnapshotVersion_at 4), transformResults = None\<rparr>
      = Inl (AssertionFailed msg))
   \<and> (\<exists>msg. TransformMutation_applyToRemoteDocument (DocumentKey ''coll/a'')
        [FieldTransform [''t''] ServerTimestampTransform]
        (Some (Document (DocumentKey ''coll/a'') (SnapshotVersion_at 3) ObjectValue_EMPTY False))
        \<lparr>version = Some (SnapshotVersion_at 4), transformResults = Some []\<rparr>
      = Inl (AssertionFailed msg))
   \<and> TransformMutation_applyToRemoteDocument (DocumentKey ''coll/a'')
        [FieldTransform [''t''] ServerTimestampTransform]
        (Some (NoDocument (DocumentKey ''coll/a'') (SnapshotVersion_at 3)))
        \<lparr>version = Some (SnapshotVersion_at 4), transformResults = Some []\<rparr>
      = Inr (Some (NoDocument (DocumentKey ''coll/a'') (SnapshotVersion_at 3)))"
  using TransformMutation_applyToRemoteDocument_fatal
      [where r = "\<lparr>version = Some (SnapshotVersion_at 4), transformResults = None\<rparr>"
         and key = "DocumentKey ''coll/a''"
         and fts = "[FieldTransform [''t''] ServerTimestampTransform]"
         and d = "Some (Document (DocumentKey ''coll/a'') (SnapshotVersion_at 3)
                    ObjectValue_EMPTY False)"]
    TransformMutation_applyToRemoteDocument_fatal
      [where r = "\<lparr>version = Some (SnapshotVersion_at 4), transformResults = Some []\<rparr>"
         and key = "DocumentKey ''coll/a''"
         and fts = "[FieldTransform [''t''] ServerTimestampTransform]"
         and d = "Some (Document (DocumentKey ''coll/a'') (SnapshotVersion_at 3)
                    ObjectValue_EMPTY False)"]
    TransformMutation_applyToRemoteDocument_fatal
      [where r = "\<lparr>version = Some (SnapshotVersion_at 4), transformResults = Some []\<rparr>"
         and key = "DocumentKey ''coll/a''"
         and fts = "[FieldTransform [''t''] ServerTimestampTransform]"
         and d = "Some (NoDocument (DocumentKey ''coll/a'') (SnapshotVersion_at 3))"]
  by (simp add: hasKey_def isValidFor_def Precondition_exists_def)

text \<open>The call does not abort whenever the number of results differs: one transform and an
  empty list of results on an absent document return absent, since the precondition is
  checked before \<^verbatim>\<open>transformObject\<close> compares the lengths.\<close>

theorem TransformMutation_applyToRemoteDocument_length_unchecked:
  "length ([] :: FieldValue list) \<noteq> length [FieldTransform [''t''] ServerTimestampTransform]
   \<and> TransformMutation_applyToRemoteDocument (DocumentKey ''coll/a'')
        [FieldTransform [''t''] ServerTimestampTransform] None
        \<lparr>version = Some (SnapshotVersion_at 4), transformResults = Some []\<rparr>
      = Inr None"
  by (simp add: TransformMutation_applyToRemoteDocument_def isValidFor_def
      Precondition_exists_def)

section \<open>Idempotence of the local path\<close>

text \<open>
  C8. \<^verbatim>\<open>applyToLocalView\<close> is idempotent for every kind of mutation: for every mutation
  \<open>m\<close>, every input state \<open>d\<close> and fixed \<^verbatim>\<open>baseDoc\<close> and \<^verbatim>\<open>localWriteTime\<close>, applying \<open>m\<close> to
  the output of applying \<open>m\<close> to \<open>d\<close> gives what applying \<open>m\<close> to \<open>d\<close> once gives. An
  application that aborts has no output to apply \<open>m\<close> to and stays aborted.
\<close>

theorem applyToLocalView_idempotent:
  "andThen (applyToLocalView m d baseDoc localWriteTime)
     (\<lambda>d'. applyToLocalView m d' baseDoc localWriteTime)
   = applyToLocalView m d baseDoc localWriteTime
  \<and> (\<forall>d'. applyToLocalView m d baseDoc localWriteTime = Inr d' \<longrightarrow>
        applyToLocalView m d' baseDoc localWriteTime = Inr d')"
proof -
  have 1: "andThen (applyToLocalView m d baseDoc localWriteTime)
     (\<lambda>d'. applyToLocalView m d' baseDoc localWriteTime)
   = applyToLocalView m d baseDoc localWriteTime"
    by (cases m)
       (simp_all add: SetMutation_local_idem PatchMutation_local_idem
          TransformMutation_local_idem DeleteMutation_local_idem)
  have "applyToLocalView m d' baseDoc localWriteTime = Inr d'"
    if "applyToLocalView m d baseDoc localWriteTime = Inr d'" for d'
    using 1 that by simp
  with 1 show ?thesis by blast
qed

text \<open>The patch \<open>{a: 9}\<close> with mask \<open>[a]\<close> applied locally to the document \<open>{a: 1, b: 2}\<close>
  at version 3, and applied again to what it returned.\<close>

theorem applyToLocalView_idempotent_witness:
  "applyToLocalView
     (PatchMutation (DocumentKey ''coll/a'') [''a'' \<mapsto> IntegerValue 9]
        (FieldMask [[''a'']]) Precondition_NONE)
     (Some (Document (DocumentKey ''coll/a'') (SnapshotVersion_at 3)
              [''a'' \<mapsto> IntegerValue 1, ''b'' \<mapsto> IntegerValue 2] False))
     None (Timestamp 10 0)
   = Inr (Some (Document (DocumentKey ''coll/a'') (SnapshotVersion_at 3)
              [''a'' \<mapsto> IntegerValue 9, ''b'' \<mapsto> IntegerValue 2] True))
   \<and> applyToLocalView
     (PatchMutation (DocumentKey ''coll/a'') [''a'' \<mapsto> IntegerValue 9]
        (FieldMask [[''a'']]) Precondition_NONE)
     (Some (Document (DocumentKey ''coll/a'') (SnapshotVersion_at 3)
              [''a'' \<mapsto> IntegerValue 9, ''b'' \<mapsto> IntegerValue 2] True))
     None (Timestamp 10 0)
   = Inr (Some (Document (DocumentKey ''coll/a'') (SnapshotVersion_at 3)
              [''a'' \<mapsto> IntegerValue 9, ''b'' \<mapsto> IntegerValue 2] True))"
proof -
  have once: "applyToLocalView
     (PatchMutation (DocumentKey ''coll/a'') [''a'' \<mapsto> IntegerValue 9]
        (FieldMask [[''a'']]) Precondition_NONE)
     (Some (Document (DocumentKey ''coll/a'') (SnapshotVersion_at 3)
              [''a'' \<mapsto> IntegerValue 1, ''b'' \<mapsto> IntegerValue 2] False))
     None (Timestamp 10 0)
   = Inr (Some (Document (DocumentKey ''coll/a'') (SnapshotVersion_at 3)
              [''a'' \<mapsto> IntegerValue 9, ''b'' \<mapsto> IntegerValue 2] True))"
    by (auto simp add: PatchMutation_applyToLocalView_def assert_def isValidFor_def
        Precondition_NONE_def isNone_def patchDocument_def ObjectValue_field_def
        ObjectValue_set_def ObjectValue_delete_def fun_eq_iff)
  with applyToLocalView_idempotent
      [where m = "PatchMutation (DocumentKey ''coll/a'') [''a'' \<mapsto> IntegerValue 9]
                    (FieldMask [[''a'']]) Precondition_NONE"
         and d = "Some (Document (DocumentKey ''coll/a'') (SnapshotVersion_at 3)
                    [''a'' \<mapsto> IntegerValue 1, ''b'' \<mapsto> IntegerValue 2] False)"
         and baseDoc = None and localWriteTime = "Timestamp 10 0"]
  show ?thesis by blast
qed

section \<open>The version of a mutation result is not read\<close>

text \<open>
  C10. For every kind of mutation, \<^verbatim>\<open>applyToRemoteDocument\<close> does not read the version of the
  \<^verbatim>\<open>MutationResult\<close>: two results with equal transform results give the same outcome on
  every input document, whatever their versions. The version of a document that is
  returned is \<^verbatim>\<open>MIN\<close> or the version of the prior document, which is also the version a
  transform mutation carries over.
\<close>

theorem applyToRemoteDocument_ignores_version:
  "(transformResults r1 = transformResults r2 \<longrightarrow>
      applyToRemoteDocument m maybeDoc r1 = applyToRemoteDocument m maybeDoc r2)
   \<and> (\<forall>out. applyToRemoteDocument m maybeDoc r1 = Inr (Some out) \<longrightarrow>
        MaybeDocument_version out = SnapshotVersion_MIN
        \<or> (\<exists>prior. maybeDoc = Some prior
              \<and> MaybeDocument_version out = MaybeDocument_version prior))"
proof (intro conjI allI impI)
  assume "transformResults r1 = transformResults r2"
  then show "applyToRemoteDocument m maybeDoc r1 = applyToRemoteDocument m maybeDoc r2"
    by (cases m)
       (simp_all add: SetMutation_applyToRemoteDocument_def
          PatchMutation_applyToRemoteDocument_def TransformMutation_applyToRemoteDocument_def
          DeleteMutation_applyToRemoteDocument_def cong: if_cong)
next
  fix out
  assume a: "applyToRemoteDocument m maybeDoc r1 = Inr (Some out)"
  obtain b where b: "isValidFor (Mutation_precondition m) maybeDoc = Inr b"
    using isValidFor_total by blast
  have v: "getPostMutationVersion maybeDoc = SnapshotVersion_MIN
     \<or> (\<exists>prior. maybeDoc = Some prior
           \<and> getPostMutationVersion maybeDoc = MaybeDocument_version prior)"
    by (cases maybeDoc rule: getPostMutationVersion.cases) simp_all
  show "MaybeDocument_version out = SnapshotVersion_MIN
        \<or> (\<exists>prior. maybeDoc = Some prior
              \<and> MaybeDocument_version out = MaybeDocument_version prior)"
  proof (cases m)
    case (SetMutation key val p)
    with a v show ?thesis
      by (auto simp: SetMutation_applyToRemoteDocument_def verifyKeyMatches_hasKey
          assert_def fail_def split: if_splits)
  next
    case (PatchMutation key dat fm p)
    with a b v show ?thesis
      by (cases "patchDocument dat fm maybeDoc")
         (auto simp: PatchMutation_applyToRemoteDocument_def verifyKeyMatches_hasKey
          assert_def fail_def split: if_splits)
  next
    case (TransformMutation key fts)
    with a b show ?thesis
      by (cases "(key, maybeDoc)" rule: requireDocument.cases)
         (auto simp: TransformMutation_applyToRemoteDocument_def verifyKeyMatches_hasKey
          assert_def fail_def split: if_splits sum.splits option.splits
          elim!: andThen.elims)
  next
    case (DeleteMutation key p)
    with a show ?thesis
      by (auto simp: DeleteMutation_applyToRemoteDocument_def verifyKeyMatches_hasKey
          assert_def fail_def split: if_splits)
  qed
qed

text \<open>A set mutation applied remotely to a document at version 3, acknowledged at version 4
  and at version 9: the same document at version 3.\<close>

theorem applyToRemoteDocument_ignores_version_witness:
  "applyToRemoteDocument
     (SetMutation (DocumentKey ''coll/a'') [''a'' \<mapsto> IntegerValue 1] Precondition_NONE)
     (Some (Document (DocumentKey ''coll/a'') (SnapshotVersion_at 3) ObjectValue_EMPTY True))
     \<lparr>version = Some (SnapshotVersion_at 4), transformResults = None\<rparr>
   = applyToRemoteDocument
     (SetMutation (DocumentKey ''coll/a'') [''a'' \<mapsto> IntegerValue 1] Precondition_NONE)
     (Some (Document (DocumentKey ''coll/a'') (SnapshotVersion_at 3) ObjectValue_EMPTY True))
     \<lparr>version = Some (SnapshotVersion_at 9), transformResults = None\<rparr>
   \<and> applyToRemoteDocument
     (SetMutation (DocumentKey ''coll/a'') [''a'' \<mapsto> IntegerValue 1] Precondition_NONE)
     (Some (Document (DocumentKey ''coll/a'') (SnapshotVersion_at 3) ObjectValue_EMPTY True))
     \<lparr>version = Some (SnapshotVersion_at 4), transformResults = None\<rparr>
   = Inr (Some (Document (DocumentKey ''coll/a'') (SnapshotVersion_at 3)
                  [''a'' \<mapsto> IntegerValue 1] False))"
proof -
  have "transformResults \<lparr>version = Some (SnapshotVersion_at 4), transformResults = None\<rparr>
      = transformResults \<lparr>version = Some (SnapshotVersion_at 9), transformResults = None\<rparr>"
    by simp
  with applyToRemoteDocument_ignores_version
      [where m = "SetMutation (DocumentKey ''coll/a'') [''a'' \<mapsto> IntegerValue 1]
                    Precondition_NONE"
         and maybeDoc = "Some (Document (DocumentKey ''coll/a'') (SnapshotVersion_at 3)
                           ObjectValue_EMPTY True)"
         and ?r1.0 = "\<lparr>version = Some (SnapshotVersion_at 4), transformResults = None\<rparr>"
         and ?r2.0 = "\<lparr>version = Some (SnapshotVersion_at 9), transformResults = None\<rparr>"]
  have "applyToRemoteDocument
     (SetMutation (DocumentKey ''coll/a'') [''a'' \<mapsto> IntegerValue 1] Precondition_NONE)
     (Some (Document (DocumentKey ''coll/a'') (SnapshotVersion_at 3) ObjectValue_EMPTY True))
     \<lparr>version = Some (SnapshotVersion_at 4), transformResults = None\<rparr>
   = applyToRemoteDocument
     (SetMutation (DocumentKey ''coll/a'') [''a'' \<mapsto> IntegerValue 1] Precondition_NONE)
     (Some (Document (DocumentKey ''coll/a'') (SnapshotVersion_at 3) ObjectValue_EMPTY True))
     \<lparr>version = Some (SnapshotVersion_at 9), transformResults = None\<rparr>"
    by blast
  moreover have "applyToRemoteDocument
     (SetMutation (DocumentKey ''coll/a'') [''a'' \<mapsto> IntegerValue 1] Precondition_NONE)
     (Some (Document (DocumentKey ''coll/a'') (SnapshotVersion_at 3) ObjectValue_EMPTY True))
     \<lparr>version = Some (SnapshotVersion_at 4), transformResults = None\<rparr>
   = Inr (Some (Document (DocumentKey ''coll/a'') (SnapshotVersion_at 3)
                  [''a'' \<mapsto> IntegerValue 1] False))"
    by (simp add: SetMutation_applyToRemoteDocument_def assert_def)
  ultimately show ?thesis by (rule conjI)
qed

end
